theory Spec2Isabelle
  imports Main "HOL-Library.Char_ord" "HOL-Library.List_Lexorder"
begin

section \<open>The NVML driver surface used by \<open>MIGManager\<close>\<close>

text \<open>
  The class \<open>MIGManager\<close> (declared in \<open>nvml_mig_optimal.h\<close>) talks to the hardware
  through the C API of NVML only. That library is external to the repository, so it is
  a parameter of the model: a record of functions over an abstract hardware state
  \<open>'hw\<close>. A query reads the hardware state; \<open>nvmlInit\<close> and \<open>nvmlDeviceSetMigMode\<close>
  are the calls of the manager that change it. A C call that returns \<open>nvmlReturn_t\<close>
  and writes its answer through pointers is a function into \<open>'a nvmlResult\<close>:
  \<open>Success\<close> carries what was written, \<open>Failure\<close> carries the return code, which is
  not \<open>NVML_SUCCESS\<close>, and leaves the output untouched. An array written together with
  its element count is a list. Handles are opaque pointers and modelled as numbers. The
  unsigned integers of the source are natural numbers: the manager copies them and
  never computes with them, except in one division, where the conversion to
  \<open>unsigned int\<close> is written out.
\<close>

type_synonym nvmlReturn_t = nat
type_synonym nvmlDevice_t = nat
type_synonym nvmlGpuInstance_t = nat
type_synonym nvmlComputeInstance_t = nat

definition NVML_SUCCESS :: nvmlReturn_t where
  "NVML_SUCCESS = 0"

definition NVML_TEMPERATURE_GPU :: nat where
  "NVML_TEMPERATURE_GPU = 0"

datatype 'a nvmlResult = Success 'a | Failure nvmlReturn_t

record nvmlMemory_t =
  mem_total :: nat
  mem_free :: nat
  mem_used :: nat

record nvmlUtilization_t =
  util_gpu :: nat
  util_memory :: nat

record nvmlGpuInstanceProfileInfo_t =
  pi_memorySizeMB :: nat
  pi_multiprocessorCount :: nat
  pi_maxComputeInstances :: nat

record nvmlGpuInstanceInfo_t =
  gi_id :: nat
  gi_profileId :: nat

record nvmlComputeInstanceInfo_t =
  ci_id :: nat

record nvmlProcessInfo_t =
  pid :: nat
  usedGpuMemory :: nat

text \<open>
  \<open>NVML_ENABLE_MIG\<close> and \<open>NVML_DISABLE_MIG\<close> are constants of the vendor header, not of
  the repository, and so are fields of the driver record. The two ways of obtaining the
  device handle of a compute instance, chosen by \<open>NVML_API_VERSION\<close>, are one field that
  receives the arguments of both.
\<close>

record 'hw nvml =
  NVML_ENABLE_MIG :: nat
  NVML_DISABLE_MIG :: nat
  nvmlErrorString :: "nvmlReturn_t \<Rightarrow> string"
  nvmlInit :: "'hw \<Rightarrow> nvmlReturn_t \<times> 'hw"
  nvmlDeviceGetCount :: "'hw \<Rightarrow> nat nvmlResult"
  nvmlDeviceGetHandleByIndex :: "'hw \<Rightarrow> nat \<Rightarrow> nvmlDevice_t nvmlResult"
  nvmlDeviceGetMigMode :: "'hw \<Rightarrow> nvmlDevice_t \<Rightarrow> (nat \<times> nat) nvmlResult"
  nvmlDeviceSetMigMode :: "'hw \<Rightarrow> nvmlDevice_t \<Rightarrow> nat \<Rightarrow> nvmlReturn_t \<times> 'hw"
  nvmlDeviceGetGpuInstances :: "'hw \<Rightarrow> nvmlDevice_t \<Rightarrow> nvmlGpuInstance_t list nvmlResult"
  nvmlGpuInstanceGetInfo :: "'hw \<Rightarrow> nvmlGpuInstance_t \<Rightarrow> nvmlGpuInstanceInfo_t nvmlResult"
  nvmlGpuInstanceGetComputeInstances ::
    "'hw \<Rightarrow> nvmlGpuInstance_t \<Rightarrow> nvmlComputeInstance_t list nvmlResult"
  nvmlComputeInstanceGetInfo ::
    "'hw \<Rightarrow> nvmlComputeInstance_t \<Rightarrow> nvmlComputeInstanceInfo_t nvmlResult"
  nvmlComputeInstanceGetDeviceHandle ::
    "'hw \<Rightarrow> nvmlDevice_t \<Rightarrow> nat \<Rightarrow> nat \<Rightarrow> nvmlComputeInstance_t \<Rightarrow> nvmlDevice_t nvmlResult"
  nvmlDeviceGetUUID :: "'hw \<Rightarrow> nvmlDevice_t \<Rightarrow> string nvmlResult"
  nvmlDeviceGetMemoryInfo :: "'hw \<Rightarrow> nvmlDevice_t \<Rightarrow> nvmlMemory_t nvmlResult"
  nvmlDeviceGetGpuInstanceProfileInfo ::
    "'hw \<Rightarrow> nvmlDevice_t \<Rightarrow> nat \<Rightarrow> nvmlGpuInstanceProfileInfo_t nvmlResult"
  nvmlDeviceGetName :: "'hw \<Rightarrow> nvmlDevice_t \<Rightarrow> string nvmlResult"
  nvmlDeviceGetUtilizationRates :: "'hw \<Rightarrow> nvmlDevice_t \<Rightarrow> nvmlUtilization_t nvmlResult"
  nvmlDeviceGetPowerUsage :: "'hw \<Rightarrow> nvmlDevice_t \<Rightarrow> nat nvmlResult"
  nvmlDeviceGetTemperature :: "'hw \<Rightarrow> nvmlDevice_t \<Rightarrow> nat \<Rightarrow> nat nvmlResult"
  nvmlDeviceGetComputeRunningProcesses ::
    "'hw \<Rightarrow> nvmlDevice_t \<Rightarrow> nvmlProcessInfo_t list nvmlResult"
  nvmlSystemGetProcessName :: "'hw \<Rightarrow> nat \<Rightarrow> string nvmlResult"

text \<open>
  Every call of the driver leaves one entry in a log, in the order of the calls; the
  entry of \<open>nvmlDeviceSetMigMode\<close> holds the handle and the mode passed.
\<close>

datatype nvmlCall =
    CallInit
  | CallDeviceGetCount
  | CallDeviceGetHandleByIndex
  | CallDeviceGetMigMode
  | CallDeviceSetMigMode nvmlDevice_t nat
  | CallDeviceGetGpuInstances
  | CallGpuInstanceGetInfo
  | CallGpuInstanceGetComputeInstances
  | CallComputeInstanceGetInfo
  | CallComputeInstanceGetDeviceHandle
  | CallDeviceGetUUID
  | CallDeviceGetMemoryInfo
  | CallDeviceGetGpuInstanceProfileInfo
  | CallDeviceGetName
  | CallDeviceGetUtilizationRates
  | CallDeviceGetPowerUsage
  | CallDeviceGetTemperature
  | CallDeviceGetComputeRunningProcesses
  | CallSystemGetProcessName

section \<open>Data of the manager\<close>

record MIGProfile =
  profileId :: nat
  memorySizeMB :: nat
  multiprocessorCount :: nat
  maxComputeInstances :: nat
  name :: string

record MIGMetrics =
  timestamp :: nat
  gpuUtilization :: nat
  memoryUtilization :: nat
  memoryUsed :: nat
  memoryFree :: nat
  memoryTotal :: nat
  powerUsage :: nat
  temperature :: nat
  processUtilization :: "(string \<times> nat) list"

record MIGDeviceInfo =
  deviceHandle :: nvmlDevice_t
  parentDeviceIndex :: nat
  instanceId :: nat
  profileId :: nat
  uuid :: string
  memorySize :: nat
  multiprocessorCount :: nat
  maxComputeInstances :: nat
  currentComputeInstances :: nat
  computeInstanceIds :: "nat list"

text \<open>
  \<open>MIGDeviceInfo migInfo;\<close> and \<open>MIGMetrics metrics;\<close> are declared without an
  initialiser: the string, the vector and the map start empty, the scalar members hold
  whatever the storage held before. What it holds when \<open>refreshMIGDevices\<close> or
  \<open>collectDeviceMetrics\<close> is entered is the parameter \<open>indeterminate\<close>.
\<close>

record indeterminate =
  junkInfo :: MIGDeviceInfo
  junkMetrics :: MIGMetrics

subsection \<open>\<open>std::map\<close> with string keys\<close>

text \<open>
  A \<open>std::map\<close> is a list of pairs in ascending key order, the order in which the
  source iterates over it. \<open>map_assign\<close> is \<open>m[k] = v\<close>, \<open>map_find\<close> is \<open>m.find(k)\<close>.
\<close>

fun map_assign :: "'k::linorder \<Rightarrow> 'v \<Rightarrow> ('k \<times> 'v) list \<Rightarrow> ('k \<times> 'v) list" where
  "map_assign k v [] = [(k, v)]"
| "map_assign k v ((k', v') # m) =
     (if k = k' then (k, v) # m
      else if k < k' then (k, v) # (k', v') # m
      else (k', v') # map_assign k v m)"

fun map_find :: "'k \<Rightarrow> ('k \<times> 'v) list \<Rightarrow> 'v option" where
  "map_find k [] = None"
| "map_find k ((k', v') # m) = (if k = k' then Some v' else map_find k m)"

subsection \<open>\<open>std::to_string\<close> on unsigned integers\<close>

definition digit_char :: "nat \<Rightarrow> char" where
  "digit_char d = char_of (48 + d)"

function to_string :: "nat \<Rightarrow> string" where
  "to_string n = (if n < 10 then [digit_char n] else to_string (n div 10) @ [digit_char (n mod 10)])"
  by pat_completeness auto
termination
  by (relation "measure id") auto

declare to_string.simps [simp del]

section \<open>Operations of \<open>MIGManager\<close>\<close>

text \<open>
  The state of one manager object: the hardware behind the driver, the reading of the
  system clock, the members of the class, and four logs of what the object did to the
  outside (driver calls, completion callbacks with their arguments, timeouts of the
  timed waits, lines written to \<open>std::cerr\<close>). A completion callback is a
  \<open>std::function\<close> supplied by the caller; it is identified by a number, \<open>None\<close> is
  the empty function, and invoking it appends to \<open>callbackLog\<close>: what the callback
  itself does is outside the manager. The closures that \<open>enableMIGMode\<close> and
  \<open>disableMIGMode\<close> put into the queue capture the device index; they are the two
  constructors of \<open>task\<close>.
\<close>

datatype task = EnableTask nat | DisableTask nat

record AsyncTask =
  task :: "task option"
  callback :: "nat option"

record 'hw MIGManager =
  hw :: 'hw
  clock :: nat
  devices :: "nvmlDevice_t list"
  migDevices :: "(string \<times> MIGDeviceInfo) list"
  monitoringActive :: bool
  latestMetrics :: "(string \<times> MIGMetrics) list"
  taskQueue :: "AsyncTask list"
  workerActive :: bool
  nvmlCalls :: "nvmlCall list"
  callbackLog :: "(nat \<times> bool \<times> string) list"
  waitLog :: "nat list"
  cerr :: "string list"

definition isMIGModeEnabled ::
  "'hw nvml \<Rightarrow> 'hw \<Rightarrow> nvmlDevice_t list \<Rightarrow> nat \<Rightarrow> bool \<times> nvmlCall list" where
  "isMIGModeEnabled drv h devs deviceIndex =
     (if deviceIndex \<ge> length devs then (False, [])
      else (case nvmlDeviceGetMigMode drv h (devs ! deviceIndex) of
              Success (currentMode, pendingMode) \<Rightarrow>
                (currentMode = NVML_ENABLE_MIG drv, [CallDeviceGetMigMode])
            | Failure e \<Rightarrow> (False, [CallDeviceGetMigMode])))"


subsection \<open>\<open>refreshMIGDevices\<close>\<close>

text \<open>
  The body executed for the first compute instance (\<open>j == 0\<close>) of a GPU instance: the
  device handle (its return code is not looked at, so after a failure the handle is what
  it was), then UUID, memory and profile, each copied only on success.
\<close>

definition firstComputeInstance ::
  "'hw nvml \<Rightarrow> 'hw \<Rightarrow> nvmlDevice_t \<Rightarrow> nvmlGpuInstanceInfo_t \<Rightarrow> nvmlComputeInstance_t \<Rightarrow>
   nvmlComputeInstanceInfo_t \<Rightarrow> MIGDeviceInfo \<Rightarrow> MIGDeviceInfo \<times> nvmlCall list" where
  "firstComputeInstance drv h dev instanceInfo ci ciInfo migInfo =
     (let m1 = (case nvmlComputeInstanceGetDeviceHandle drv h dev (gi_id instanceInfo)
                       (ci_id ciInfo) ci of
                  Success d \<Rightarrow> migInfo\<lparr>deviceHandle := d\<rparr>
                | Failure e \<Rightarrow> migInfo);
          m2 = (case nvmlDeviceGetUUID drv h (deviceHandle m1) of
                  Success u \<Rightarrow> m1\<lparr>uuid := u\<rparr>
                | Failure e \<Rightarrow> m1);
          m3 = (case nvmlDeviceGetMemoryInfo drv h (deviceHandle m2) of
                  Success memInfo \<Rightarrow> m2\<lparr>memorySize := mem_total memInfo\<rparr>
                | Failure e \<Rightarrow> m2);
          m4 = (case nvmlDeviceGetGpuInstanceProfileInfo drv h dev (gi_profileId instanceInfo) of
                  Success profileInfo \<Rightarrow>
                    m3\<lparr>maxComputeInstances := pi_maxComputeInstances profileInfo,
                       multiprocessorCount := pi_multiprocessorCount profileInfo\<rparr>
                | Failure e \<Rightarrow> m3)
      in (m4, [CallComputeInstanceGetDeviceHandle, CallDeviceGetUUID, CallDeviceGetMemoryInfo,
               CallDeviceGetGpuInstanceProfileInfo]))"

text \<open>The loop \<open>for (j = 0; j < ciCount; j++)\<close> over the compute instances, from index \<open>j\<close>.\<close>

fun computeInstanceLoop ::
  "'hw nvml \<Rightarrow> 'hw \<Rightarrow> nvmlDevice_t \<Rightarrow> nvmlGpuInstanceInfo_t \<Rightarrow> nat \<Rightarrow>
   nvmlComputeInstance_t list \<Rightarrow> MIGDeviceInfo \<Rightarrow> MIGDeviceInfo \<times> nvmlCall list" where
  "computeInstanceLoop drv h dev instanceInfo j [] migInfo = (migInfo, [])"
| "computeInstanceLoop drv h dev instanceInfo j (ci # cis) migInfo =
     (case nvmlComputeInstanceGetInfo drv h ci of
        Failure e \<Rightarrow>
          (let (r, cs) = computeInstanceLoop drv h dev instanceInfo (Suc j) cis migInfo
           in (r, CallComputeInstanceGetInfo # cs))
      | Success ciInfo \<Rightarrow>
          (let m1 = migInfo\<lparr>computeInstanceIds := computeInstanceIds migInfo @ [ci_id ciInfo]\<rparr>;
               (m2, c2) = (if j = 0 then firstComputeInstance drv h dev instanceInfo ci ciInfo m1
                           else (m1, []));
               (r, cs) = computeInstanceLoop drv h dev instanceInfo (Suc j) cis m2
           in (r, CallComputeInstanceGetInfo # c2 @ cs)))"

text \<open>
  The body of the loop over the GPU instances of one device. \<open>MIGDeviceInfo migInfo;\<close>
  is declared in this body without an initialiser: its string and its vector start
  empty, and its scalar members hold what the storage holds, which is what the \<open>migInfo\<close>
  of the iteration before left there (and \<open>junkInfo\<close> before the first iteration of a
  pass). \<open>slot\<close> is that storage: the body takes it as it finds it and returns it as
  it leaves it, next to the mapping and the driver calls.
\<close>

definition gpuInstanceBody ::
  "'hw nvml \<Rightarrow> MIGDeviceInfo \<Rightarrow> 'hw \<Rightarrow> nvmlDevice_t list \<Rightarrow> nat \<Rightarrow> nvmlGpuInstance_t \<Rightarrow>
   (string \<times> MIGDeviceInfo) list \<Rightarrow>
   (string \<times> MIGDeviceInfo) list \<times> MIGDeviceInfo \<times> nvmlCall list" where
  "gpuInstanceBody drv slot h devs deviceIndex gpuInstance newDevices =
     (let migInfo0 = slot\<lparr>uuid := [], computeInstanceIds := [],
                           parentDeviceIndex := deviceIndex\<rparr>
      in case nvmlGpuInstanceGetInfo drv h gpuInstance of
           Failure e \<Rightarrow> (newDevices, migInfo0, [CallGpuInstanceGetInfo])
         | Success instanceInfo \<Rightarrow>
             (let migInfo1 = migInfo0\<lparr>instanceId := gi_id instanceInfo,
                                      profileId := gi_profileId instanceInfo\<rparr>
              in case nvmlGpuInstanceGetComputeInstances drv h gpuInstance of
                   Failure e \<Rightarrow>
                     (newDevices, migInfo1,
                      [CallGpuInstanceGetInfo, CallGpuInstanceGetComputeInstances])
                 | Success computeInstances \<Rightarrow>
                     (let migInfo2 = migInfo1\<lparr>computeInstanceIds := [],
                                              currentComputeInstances := length computeInstances\<rparr>;
                          (migInfo, cs) = computeInstanceLoop drv h (devs ! deviceIndex)
                                            instanceInfo 0 computeInstances migInfo2
                      in ((if uuid migInfo \<noteq> [] then map_assign (uuid migInfo) migInfo newDevices
                           else newDevices),
                          migInfo,
                          [CallGpuInstanceGetInfo, CallGpuInstanceGetComputeInstances] @ cs))))"

fun gpuInstanceLoop ::
  "'hw nvml \<Rightarrow> MIGDeviceInfo \<Rightarrow> 'hw \<Rightarrow> nvmlDevice_t list \<Rightarrow> nat \<Rightarrow> nvmlGpuInstance_t list \<Rightarrow>
   (string \<times> MIGDeviceInfo) list \<Rightarrow>
   (string \<times> MIGDeviceInfo) list \<times> MIGDeviceInfo \<times> nvmlCall list" where
  "gpuInstanceLoop drv slot h devs deviceIndex [] newDevices = (newDevices, slot, [])"
| "gpuInstanceLoop drv slot h devs deviceIndex (gpuInstance # rest) newDevices =
     (let (nd1, slot1, c1) = gpuInstanceBody drv slot h devs deviceIndex gpuInstance newDevices;
          (nd2, slot2, c2) = gpuInstanceLoop drv slot1 h devs deviceIndex rest nd1
      in (nd2, slot2, c1 @ c2))"

text \<open>
  One iteration of the outer loop: what the device at \<open>deviceIndex\<close> adds to
  \<open>newDevices\<close>, and the storage of \<open>migInfo\<close> after it.
\<close>

definition refreshDevice ::
  "'hw nvml \<Rightarrow> MIGDeviceInfo \<Rightarrow> 'hw \<Rightarrow> nvmlDevice_t list \<Rightarrow> nat \<Rightarrow>
   (string \<times> MIGDeviceInfo) list \<Rightarrow>
   (string \<times> MIGDeviceInfo) list \<times> MIGDeviceInfo \<times> nvmlCall list" where
  "refreshDevice drv slot h devs deviceIndex newDevices =
     (let (enabled, c0) = isMIGModeEnabled drv h devs deviceIndex
      in if \<not> enabled then (newDevices, slot, c0)
         else (case nvmlDeviceGetGpuInstances drv h (devs ! deviceIndex) of
                 Failure e \<Rightarrow> (newDevices, slot, c0 @ [CallDeviceGetGpuInstances])
               | Success gpuInstances \<Rightarrow>
                   (let (nd, slot', cs) =
                          gpuInstanceLoop drv slot h devs deviceIndex gpuInstances newDevices
                    in (nd, slot', c0 @ [CallDeviceGetGpuInstances] @ cs))))"

text \<open>
  The outer loop, over the device indices still to visit; \<open>refreshMIGDevices\<close> runs it
  on \<open>[0..<devices.size()]\<close> from an empty \<open>newDevices\<close> and then moves the result
  into \<open>migDevices\<close>.
\<close>

fun refreshLoop ::
  "'hw nvml \<Rightarrow> MIGDeviceInfo \<Rightarrow> 'hw \<Rightarrow> nvmlDevice_t list \<Rightarrow> nat list \<Rightarrow>
   (string \<times> MIGDeviceInfo) list \<Rightarrow>
   (string \<times> MIGDeviceInfo) list \<times> MIGDeviceInfo \<times> nvmlCall list" where
  "refreshLoop drv slot h devs [] newDevices = (newDevices, slot, [])"
| "refreshLoop drv slot h devs (deviceIndex # rest) newDevices =
     (let (nd1, slot1, c1) = refreshDevice drv slot h devs deviceIndex newDevices;
          (nd2, slot2, c2) = refreshLoop drv slot1 h devs rest nd1
      in (nd2, slot2, c1 @ c2))"

definition refreshMIGDevices ::
  "'hw nvml \<Rightarrow> indeterminate \<Rightarrow> 'hw MIGManager \<Rightarrow> 'hw MIGManager" where
  "refreshMIGDevices drv u s =
     (let (newDevices, slot, cs) =
            refreshLoop drv (junkInfo u) (hw s) (devices s) [0..<length (devices s)] []
      in s\<lparr>migDevices := newDevices, nvmlCalls := nvmlCalls s @ cs\<rparr>)"


text \<open>
  The members of \<open>migInfo\<close> that an iteration uses without having written them in
  every case: the device handle, read after a handle query whose return code is not
  looked at, and the memory size and the two values of the profile, copied only when
  their query succeeds. All other members are written before they are used.
\<close>

definition staleFields :: "MIGDeviceInfo \<Rightarrow> nvmlDevice_t \<times> nat \<times> nat \<times> nat" where
  "staleFields m = (deviceHandle m, memorySize m, multiprocessorCount m, maxComputeInstances m)"

subsection \<open>Messages and exceptions\<close>

text \<open>
  The string literals of the source are Korean text in UTF-8; a \<open>string\<close> is the list
  of their bytes.
\<close>

definition utf8 :: "nat list \<Rightarrow> string" where
  "utf8 bytes = map char_of bytes"


definition taskSuccessMessage :: string where
  \<comment> \<open>the message of the worker after a task that did not throw\<close>
  "taskSuccessMessage = utf8 [236, 158, 145, 236, 151, 133, 32, 236, 132, 177, 234, 179, 181]"

definition enableFailedContext :: string where
  \<comment> \<open>context of the exception of the enabling task\<close>
  "enableFailedContext = utf8 [77, 73, 71, 32, 235, 170, 168, 235, 147, 156, 32, 237, 153, 156, 236, 132, 177, 237, 153, 148, 32, 236, 139, 164, 237, 140, 168]"

definition disableFailedContext :: string where
  \<comment> \<open>context of the exception of the disabling task\<close>
  "disableFailedContext = utf8 [77, 73, 71, 32, 235, 170, 168, 235, 147, 156, 32, 235, 185, 132, 237, 153, 156, 236, 132, 177, 237, 153, 148, 32, 236, 139, 164, 237, 140, 168]"



definition countFailedContext :: string where
  \<comment> \<open>context of the exception of the device count query\<close>
  "countFailedContext = utf8 [235, 148, 148, 235, 176, 148, 236, 157, 180, 236, 138, 164, 32, 234, 176, 156, 236, 136, 152, 32, 236, 161, 176, 237, 154, 140, 32, 236, 139, 164, 237, 140, 168]"

definition warningPrefix :: string where
  \<comment> \<open>first part of the warning for a handle that was not obtained\<close>
  "warningPrefix = utf8 [234, 178, 189, 234, 179, 160, 58, 32, 235, 148, 148, 235, 176, 148, 236, 157, 180, 236, 138, 164, 32]"

definition warningSuffix :: string where
  \<comment> \<open>last part of that warning\<close>
  "warningSuffix = utf8 [32, 237, 149, 184, 235, 147, 164, 32, 237, 154, 141, 235, 147, 157, 32, 236, 139, 164, 237, 140, 168]"

datatype exception = NVMLException nvmlReturn_t string

definition newNVMLException :: "'hw nvml \<Rightarrow> nvmlReturn_t \<Rightarrow> string \<Rightarrow> exception" where
  "newNVMLException drv err context = NVMLException err (context @ '': '' @ nvmlErrorString drv err)"

fun what :: "exception \<Rightarrow> string" where
  "what (NVMLException err message) = message"

text \<open>\<open>if (callback) callback(success, message)\<close>.\<close>

definition invoke :: "nat option \<Rightarrow> bool \<Rightarrow> string \<Rightarrow> 'hw MIGManager \<Rightarrow> 'hw MIGManager" where
  "invoke cb success message s =
     (case cb of
        None \<Rightarrow> s
      | Some c \<Rightarrow> s\<lparr>callbackLog := callbackLog s @ [(c, success, message)]\<rparr>)"

subsection \<open>\<open>collectDeviceMetrics\<close>\<close>

text \<open>
  The loop over the running processes. The value stored is \<open>usedGpuMemory / (1024 * 1024)\<close>
  converted to \<open>unsigned int\<close>. The return code of \<open>nvmlSystemGetProcessName\<close> is not
  looked at; the buffer starts zeroed, so after a failure the name is empty.
\<close>

fun processLoop ::
  "'hw nvml \<Rightarrow> 'hw \<Rightarrow> nvmlProcessInfo_t list \<Rightarrow> (string \<times> nat) list \<Rightarrow>
   (string \<times> nat) list \<times> nvmlCall list" where
  "processLoop drv h [] pu = (pu, [])"
| "processLoop drv h (p # ps) pu =
     (let name0 = (case nvmlSystemGetProcessName drv h (pid p) of
                     Success n \<Rightarrow> n
                   | Failure e \<Rightarrow> []);
          processName = (if name0 = [] then ''pid_'' @ to_string (pid p) else name0);
          pu1 = map_assign processName ((usedGpuMemory p div (1024 * 1024)) mod 2 ^ 32) pu;
          (r, cs) = processLoop drv h ps pu1
      in (r, CallSystemGetProcessName # cs))"

text \<open>
  Power and temperature are read from \<open>devices[device.parentDeviceIndex]\<close>; the
  descriptors the manager passes come from \<open>refreshMIGDevices\<close>, where that index is
  the loop index.
\<close>

definition collectDeviceMetrics ::
  "'hw nvml \<Rightarrow> indeterminate \<Rightarrow> 'hw \<Rightarrow> nat \<Rightarrow> nvmlDevice_t list \<Rightarrow> MIGDeviceInfo \<Rightarrow>
   MIGMetrics \<times> nvmlCall list" where
  "collectDeviceMetrics drv u h now devs device =
     (let metrics0 = (junkMetrics u)\<lparr>processUtilization := [], timestamp := now\<rparr>;
          metrics1 = (case nvmlDeviceGetUtilizationRates drv h (deviceHandle device) of
                        Success utilization \<Rightarrow>
                          metrics0\<lparr>gpuUtilization := util_gpu utilization,
                                   memoryUtilization := util_memory utilization\<rparr>
                      | Failure e \<Rightarrow> metrics0);
          metrics2 = (case nvmlDeviceGetMemoryInfo drv h (deviceHandle device) of
                        Success memInfo \<Rightarrow>
                          metrics1\<lparr>memoryUsed := mem_used memInfo,
                                   memoryFree := mem_free memInfo,
                                   memoryTotal := mem_total memInfo\<rparr>
                      | Failure e \<Rightarrow> metrics1);
          metrics3 = (case nvmlDeviceGetPowerUsage drv h (devs ! parentDeviceIndex device) of
                        Success power' \<Rightarrow> metrics2\<lparr>powerUsage := power'\<rparr>
                      | Failure e \<Rightarrow> metrics2);
          metrics4 = (case nvmlDeviceGetTemperature drv h (devs ! parentDeviceIndex device)
                             NVML_TEMPERATURE_GPU of
                        Success temp \<Rightarrow> metrics3\<lparr>temperature := temp\<rparr>
                      | Failure e \<Rightarrow> metrics3);
          (pu, cs) = (case nvmlDeviceGetComputeRunningProcesses drv h (deviceHandle device) of
                        Success processes \<Rightarrow> processLoop drv h processes []
                      | Failure e \<Rightarrow> ([], []))
      in (metrics4\<lparr>processUtilization := pu\<rparr>,
          [CallDeviceGetUtilizationRates, CallDeviceGetMemoryInfo, CallDeviceGetPowerUsage,
           CallDeviceGetTemperature, CallDeviceGetComputeRunningProcesses] @ cs))"

text \<open>\<open>for (const auto& [uuid, device] : migDevices) metrics[uuid] = collectDeviceMetrics(device);\<close>\<close>

fun collectAll ::
  "'hw nvml \<Rightarrow> indeterminate \<Rightarrow> 'hw \<Rightarrow> nat \<Rightarrow> nvmlDevice_t list \<Rightarrow>
   (string \<times> MIGDeviceInfo) list \<Rightarrow> (string \<times> MIGMetrics) list \<Rightarrow>
   (string \<times> MIGMetrics) list \<times> nvmlCall list" where
  "collectAll drv u h now devs [] metrics = (metrics, [])"
| "collectAll drv u h now devs ((k, device) # rest) metrics =
     (let (m, c1) = collectDeviceMetrics drv u h now devs device;
          (r, c2) = collectAll drv u h now devs rest (map_assign k m metrics)
      in (r, c1 @ c2))"


subsection \<open>Enabling and disabling MIG mode\<close>

text \<open>
  What the queued closures do when the worker calls them: the driver call, an
  \<open>NVMLException\<close> if it did not return \<open>NVML_SUCCESS\<close>, a refresh otherwise. The
  result is the exception thrown, if any, and the state.
\<close>

fun runTask ::
  "'hw nvml \<Rightarrow> indeterminate \<Rightarrow> task \<Rightarrow> 'hw MIGManager \<Rightarrow> exception option \<times> 'hw MIGManager" where
  "runTask drv u (EnableTask deviceIndex) s =
     (let (result, h') = nvmlDeviceSetMigMode drv (hw s) (devices s ! deviceIndex)
                           (NVML_ENABLE_MIG drv);
          s1 = s\<lparr>hw := h', nvmlCalls := nvmlCalls s @
                  [CallDeviceSetMigMode (devices s ! deviceIndex) (NVML_ENABLE_MIG drv)]\<rparr>
      in if result \<noteq> NVML_SUCCESS
         then (Some (newNVMLException drv result enableFailedContext), s1)
         else (None, refreshMIGDevices drv u s1))"
| "runTask drv u (DisableTask deviceIndex) s =
     (let (result, h') = nvmlDeviceSetMigMode drv (hw s) (devices s ! deviceIndex)
                           (NVML_DISABLE_MIG drv);
          s1 = s\<lparr>hw := h', nvmlCalls := nvmlCalls s @
                  [CallDeviceSetMigMode (devices s ! deviceIndex) (NVML_DISABLE_MIG drv)]\<rparr>
      in if result \<noteq> NVML_SUCCESS
         then (Some (newNVMLException drv result disableFailedContext), s1)
         else (None, refreshMIGDevices drv u s1))"



subsection \<open>\<open>getAvailableProfiles\<close>\<close>




subsection \<open>Read operations\<close>

definition getAllMIGDevices ::
  "'hw nvml \<Rightarrow> indeterminate \<Rightarrow> 'hw MIGManager \<Rightarrow> MIGDeviceInfo list \<times> 'hw MIGManager" where
  "getAllMIGDevices drv u s =
     (let s1 = refreshMIGDevices drv u s
      in (map snd (migDevices s1), s1))"

definition getMIGDevices ::
  "'hw nvml \<Rightarrow> indeterminate \<Rightarrow> nat \<Rightarrow> 'hw MIGManager \<Rightarrow> MIGDeviceInfo list \<times> 'hw MIGManager" where
  "getMIGDevices drv u deviceIndex s =
     (if deviceIndex \<ge> length (devices s) then ([], s)
      else (let s1 = refreshMIGDevices drv u s
            in (filter (\<lambda>device. parentDeviceIndex device = deviceIndex) (map snd (migDevices s1)),
                s1)))"

definition findMIGDeviceByUUID ::
  "string \<Rightarrow> 'hw MIGManager \<Rightarrow> MIGDeviceInfo option \<times> 'hw MIGManager" where
  "findMIGDeviceByUUID k s = (map_find k (migDevices s), s)"

definition getMIGDeviceMetrics ::
  "'hw nvml \<Rightarrow> indeterminate \<Rightarrow> string \<Rightarrow> 'hw MIGManager \<Rightarrow> MIGMetrics option \<times> 'hw MIGManager" where
  "getMIGDeviceMetrics drv u k s =
     (case map_find k (latestMetrics s) of
        Some m \<Rightarrow> (Some m, s)
      | None \<Rightarrow>
          (case map_find k (migDevices s) of
             Some device \<Rightarrow>
               (let (m, cs) = collectDeviceMetrics drv u (hw s) (clock s) (devices s) device
                in (Some m, s\<lparr>nvmlCalls := nvmlCalls s @ cs\<rparr>))
           | None \<Rightarrow> (None, s)))"

definition getAllMIGMetrics ::
  "'hw nvml \<Rightarrow> indeterminate \<Rightarrow> 'hw MIGManager \<Rightarrow> (string \<times> MIGMetrics) list \<times> 'hw MIGManager" where
  "getAllMIGMetrics drv u s =
     (if latestMetrics s = []
      then (let (metrics, cs) = collectAll drv u (hw s) (clock s) (devices s) (migDevices s) []
            in (metrics, s\<lparr>nvmlCalls := nvmlCalls s @ cs\<rparr>))
      else (latestMetrics s, s))"

definition getDeviceCount :: "'hw MIGManager \<Rightarrow> nat \<times> 'hw MIGManager" where
  "getDeviceCount s = (length (devices s), s)"

definition getDeviceName ::
  "'hw nvml \<Rightarrow> nat \<Rightarrow> 'hw MIGManager \<Rightarrow> string \<times> 'hw MIGManager" where
  "getDeviceName drv index s =
     (if index \<ge> length (devices s) then ([], s)
      else (case nvmlDeviceGetName drv (hw s) (devices s ! index) of
              Success n \<Rightarrow> (n, s\<lparr>nvmlCalls := nvmlCalls s @ [CallDeviceGetName]\<rparr>)
            | Failure e \<Rightarrow> (''Unknown'', s\<lparr>nvmlCalls := nvmlCalls s @ [CallDeviceGetName]\<rparr>)))"


subsection \<open>The worker thread\<close>

text \<open>
  A completion callback is code of the caller. What the worker sees of a call is how it
  ends: it returns, it throws a \<open>std::exception\<close> (with the text of \<open>what()\<close>), or it
  throws something else. \<open>callbacks\<close> gives this for every callback and every pair of
  arguments. \<open>invokeOutcome\<close> is \<open>if (task.callback) task.callback(success, message)\<close>
  inside the worker: the call is logged and its outcome returned. A callback is taken
  not to call the manager itself: what it does to the caller's own data is outside the
  state of the manager.
\<close>

datatype callbackOutcome = Returns | ThrowsStd string | ThrowsOther

type_synonym callbacks = "nat \<Rightarrow> bool \<Rightarrow> string \<Rightarrow> callbackOutcome"

definition invokeOutcome ::
  "callbacks \<Rightarrow> nat option \<Rightarrow> bool \<Rightarrow> string \<Rightarrow> 'hw MIGManager \<Rightarrow>
   callbackOutcome \<times> 'hw MIGManager" where
  "invokeOutcome cbs cb success message s =
     (case cb of
        None \<Rightarrow> (Returns, s)
      | Some c \<Rightarrow> (cbs c success message, invoke cb success message s))"

text \<open>
  What the worker does with a dequeued \<open>AsyncTask\<close>. The closure and the call of the
  callback with \<open>true\<close> are both inside the \<open>try\<close> block, and the handler for
  \<open>std::exception\<close> calls the callback with \<open>false\<close> and the text of the exception: so
  it does after an exception of the closure, and so it does after a \<open>std::exception\<close>
  thrown by the callback itself. An exception that is not a \<open>std::exception\<close>, or one
  thrown by the call inside the handler, leaves the loop and with it the function of
  the thread. The result says whether that happened, and gives the state.
\<close>

definition executeTask ::
  "callbacks \<Rightarrow> 'hw nvml \<Rightarrow> indeterminate \<Rightarrow> AsyncTask \<Rightarrow> 'hw MIGManager \<Rightarrow>
   bool \<times> 'hw MIGManager" where
  "executeTask cbs drv u t s =
     (case task t of
        None \<Rightarrow> (False, s)
      | Some f \<Rightarrow>
          (case runTask drv u f s of
             (None, s1) \<Rightarrow>
               (case invokeOutcome cbs (callback t) True taskSuccessMessage s1 of
                  (Returns, s2) \<Rightarrow> (False, s2)
                | (ThrowsStd w, s2) \<Rightarrow>
                    (case invokeOutcome cbs (callback t) False w s2 of
                       (Returns, s3) \<Rightarrow> (False, s3)
                     | (ThrowsStd w', s3) \<Rightarrow> (True, s3)
                     | (ThrowsOther, s3) \<Rightarrow> (True, s3))
                | (ThrowsOther, s2) \<Rightarrow> (True, s2))
           | (Some e, s1) \<Rightarrow>
               (case invokeOutcome cbs (callback t) False (what e) s1 of
                  (Returns, s2) \<Rightarrow> (False, s2)
                | (ThrowsStd w, s2) \<Rightarrow> (True, s2)
                | (ThrowsOther, s2) \<Rightarrow> (True, s2))))"

text \<open>
  One turn of \<open>while (workerActive)\<close>. The wait on \<open>taskCV\<close> returns when the worker is
  no longer active or the queue is not empty: with an inactive worker the loop is left
  (\<open>WorkerExited\<close>), with an active worker and an empty queue the thread stays in the wait
  (\<open>WorkerWaiting\<close>) until another thread changes the state; otherwise the front of the
  queue is popped under the lock and executed, and the loop goes on (\<open>None\<close>) unless an
  exception has left it (\<open>WorkerTerminated\<close>: the function of the thread ends with an
  exception).
\<close>

datatype workerStatus = WorkerExited | WorkerWaiting | WorkerTerminated

definition workerIteration ::
  "callbacks \<Rightarrow> 'hw nvml \<Rightarrow> indeterminate \<Rightarrow> 'hw MIGManager \<Rightarrow>
   workerStatus option \<times> 'hw MIGManager" where
  "workerIteration cbs drv u s =
     (if \<not> workerActive s then (Some WorkerExited, s)
      else (case taskQueue s of
              [] \<Rightarrow> (Some WorkerWaiting, s)
            | t # q \<Rightarrow>
                (case executeTask cbs drv u t (s\<lparr>taskQueue := q\<rparr>) of
                   (False, s') \<Rightarrow> (None, s')
                 | (True, s') \<Rightarrow> (Some WorkerTerminated, s'))))"

function workerLoop ::
  "callbacks \<Rightarrow> 'hw nvml \<Rightarrow> indeterminate \<Rightarrow> 'hw MIGManager \<Rightarrow>
   'hw MIGManager \<times> workerStatus" where
  "workerLoop cbs drv u s =
     (case workerIteration cbs drv u s of
        (Some st, s') \<Rightarrow> (s', st)
      | (None, s') \<Rightarrow> workerLoop cbs drv u s')"
  by pat_completeness auto
termination
proof (relation "measure (\<lambda>(cbs, drv, u, s). length (taskQueue s))")
  show "wf (measure (\<lambda>(cbs, drv, u, s). length (taskQueue s)))"
    by simp
next
  fix cbs :: callbacks and drv :: "'hw nvml" and u s x1 s'
  assume "(x1, s') = workerIteration cbs drv u s" and "x1 = None"
  then obtain t q b where q: "taskQueue s = t # q"
    and s': "(b, s') = executeTask cbs drv u t (s\<lparr>taskQueue := q\<rparr>)"
    by (auto simp: workerIteration_def split: if_splits list.splits prod.splits bool.splits)
  have "taskQueue (snd (runTask drv u f r)) = taskQueue r" for f and r :: "'hw MIGManager"
    by (cases f) (simp_all add: refreshMIGDevices_def invoke_def split_def Let_def)
  then have run: "taskQueue r1 = taskQueue r" if "runTask drv u f r = (e, r1)"
    for f e and r r1 :: "'hw MIGManager"
    using that by (metis snd_conv)
  have inv: "taskQueue r1 = taskQueue r" if "invokeOutcome cbs cb ok m r = (o', r1)"
    for cb ok m o' and r r1 :: "'hw MIGManager"
    using that by (auto simp: invokeOutcome_def invoke_def split: option.splits)
  have "taskQueue (snd (executeTask cbs drv u t r)) = taskQueue r" for r :: "'hw MIGManager"
    unfolding executeTask_def
    by (auto split: option.splits prod.splits callbackOutcome.splits dest!: run inv)
  with s' have "taskQueue s' = q"
    by (metis snd_conv select_convs(7) surjective update_convs(7))
  with q show "((cbs, drv, u, s'), (cbs, drv, u, s))
      \<in> measure (\<lambda>(cbs, drv, u, s). length (taskQueue s))"
    by simp
qed

declare workerLoop.simps [simp del]

subsection \<open>The monitoring thread\<close>

text \<open>
  One turn of \<open>while (monitoringActive)\<close>: refresh, metrics of every registered device,
  publication of the metrics, and the timed wait, whose timeout is recorded. The loop
  ends when another thread clears the flag; \<open>monitoringLoop\<close> runs at most the given
  number of turns.
\<close>

definition monitoringPass ::
  "'hw nvml \<Rightarrow> indeterminate \<Rightarrow> 'hw MIGManager \<Rightarrow> 'hw MIGManager" where
  "monitoringPass drv u s =
     (let s1 = refreshMIGDevices drv u s;
          (metrics, cs) = collectAll drv u (hw s1) (clock s1) (devices s1) (migDevices s1) [];
          s2 = s1\<lparr>nvmlCalls := nvmlCalls s1 @ cs, latestMetrics := metrics\<rparr>
      in s2\<lparr>waitLog := waitLog s2 @ [1000]\<rparr>)"

fun monitoringLoop ::
  "'hw nvml \<Rightarrow> indeterminate \<Rightarrow> nat \<Rightarrow> 'hw MIGManager \<Rightarrow> 'hw MIGManager" where
  "monitoringLoop drv u 0 s = s"
| "monitoringLoop drv u (Suc n) s =
     (if monitoringActive s then monitoringLoop drv u n (monitoringPass drv u s) else s)"

definition stopMonitoring :: "'hw MIGManager \<Rightarrow> 'hw MIGManager" where
  "stopMonitoring s = (if monitoringActive s then s\<lparr>monitoringActive := False\<rparr> else s)"

text \<open>\<open>startMonitoring\<close> sets the flag and starts the thread that runs \<open>monitoringLoop\<close>.\<close>

definition startMonitoring :: "nat \<Rightarrow> 'hw MIGManager \<Rightarrow> 'hw MIGManager" where
  "startMonitoring intervalMs s = (stopMonitoring s)\<lparr>monitoringActive := True\<rparr>"

subsection \<open>Construction and destruction\<close>

text \<open>
  The loop of \<open>initializeDevices\<close> over the indices: the handles obtained, the driver
  calls, and the warnings written to \<open>std::cerr\<close>.
\<close>

fun handleLoop ::
  "'hw nvml \<Rightarrow> 'hw \<Rightarrow> nat list \<Rightarrow> nvmlDevice_t list \<Rightarrow>
   nvmlDevice_t list \<times> nvmlCall list \<times> string list" where
  "handleLoop drv h [] devs = (devs, [], [])"
| "handleLoop drv h (i # rest) devs =
     (case nvmlDeviceGetHandleByIndex drv h i of
        Success device \<Rightarrow>
          (let (r, cs, ws) = handleLoop drv h rest (devs @ [device])
           in (r, CallDeviceGetHandleByIndex # cs, ws))
      | Failure e \<Rightarrow>
          (let (r, cs, ws) = handleLoop drv h rest devs
           in (r, CallDeviceGetHandleByIndex # cs,
               (warningPrefix @ to_string i @ warningSuffix) # ws)))"

text \<open>\<open>Inl\<close> is the exception that leaves \<open>initializeDevices\<close>.\<close>

definition initializeDevices ::
  "'hw nvml \<Rightarrow> indeterminate \<Rightarrow> 'hw MIGManager \<Rightarrow> exception + 'hw MIGManager" where
  "initializeDevices drv u s =
     (case nvmlDeviceGetCount drv (hw s) of
        Failure result \<Rightarrow> Inl (newNVMLException drv result countFailedContext)
      | Success deviceCount \<Rightarrow>
          (let (devs, cs, ws) = handleLoop drv (hw s) [0..<deviceCount] []
           in Inr (refreshMIGDevices drv u
                     (s\<lparr>devices := devs,
                        nvmlCalls := nvmlCalls s @ CallDeviceGetCount # cs,
                        cerr := cerr s @ ws\<rparr>))))"

text \<open>
  The constructor: \<open>NVMLGuard\<close>, \<open>initializeDevices\<close>, start of the worker. An exception
  is written to \<open>std::cerr\<close> and thrown again; the object then does not exist, and the
  result is the exception.
\<close>

definition newMIGManager ::
  "'hw nvml \<Rightarrow> indeterminate \<Rightarrow> 'hw \<Rightarrow> nat \<Rightarrow> exception + 'hw MIGManager" where
  "newMIGManager drv u h now =
     (let (result, h1) = nvmlInit drv h;
          s0 = \<lparr>hw = h1, clock = now, devices = [], migDevices = [], monitoringActive = False,
                latestMetrics = [], taskQueue = [], workerActive = False,
                nvmlCalls = [CallInit], callbackLog = [], waitLog = [], cerr = []\<rparr>
      in if result \<noteq> NVML_SUCCESS
         then Inl (newNVMLException drv result ''Failed to initialize NVML'')
         else (case initializeDevices drv u s0 of
                 Inl e \<Rightarrow> Inl e
               | Inr s1 \<Rightarrow> Inr (s1\<lparr>workerActive := True\<rparr>)))"

text \<open>
  The destructor stops the monitoring, clears \<open>workerActive\<close> under \<open>taskMutex\<close>,
  notifies the worker and joins it: the worker thread runs on from its loop until the
  loop ends.
\<close>

definition destroyMIGManager ::
  "callbacks \<Rightarrow> 'hw nvml \<Rightarrow> indeterminate \<Rightarrow> 'hw MIGManager \<Rightarrow>
   'hw MIGManager \<times> workerStatus" where
  "destroyMIGManager cbs drv u s =
     workerLoop cbs drv u ((stopMonitoring s)\<lparr>workerActive := False\<rparr>)"


subsection \<open>A refresh pass, step by step\<close>

text \<open>
  \<open>refreshMIGDevices\<close> as the thread that runs it sees it: \<open>newDevices\<close> and the
  storage of \<open>migInfo\<close> are local to the thread, each turn of the outer loop is one
  step, and the block that takes \<open>metricsMutex\<close> and moves \<open>newDevices\<close> into
  \<open>migDevices\<close> is the last step. Another thread that takes \<open>metricsMutex\<close> to read
  \<open>migDevices\<close> does so between two steps.
\<close>

record refreshPass =
  remaining :: "nat list"
  newDevices :: "(string \<times> MIGDeviceInfo) list"
  slot :: MIGDeviceInfo
  published :: bool

definition beginRefresh :: "indeterminate \<Rightarrow> 'hw MIGManager \<Rightarrow> refreshPass" where
  "beginRefresh u s =
     \<lparr>remaining = [0..<length (devices s)], newDevices = [], slot = junkInfo u,
      published = False\<rparr>"

definition refreshStep ::
  "'hw nvml \<Rightarrow> refreshPass \<times> 'hw MIGManager \<Rightarrow> refreshPass \<times> 'hw MIGManager" where
  "refreshStep drv ps =
     (let p = fst ps; s = snd ps
      in case remaining p of
           deviceIndex # rest \<Rightarrow>
             (let (nd, slot', cs) =
                    refreshDevice drv (slot p) (hw s) (devices s) deviceIndex (newDevices p)
              in (p\<lparr>remaining := rest, newDevices := nd, slot := slot'\<rparr>,
                  s\<lparr>nvmlCalls := nvmlCalls s @ cs\<rparr>))
         | [] \<Rightarrow>
             (if published p then (p, s)
              else (p\<lparr>published := True\<rparr>, s\<lparr>migDevices := newDevices p\<rparr>)))"

text \<open>
  Several threads can be inside \<open>refreshMIGDevices\<close> at once (the worker after a
  command, the monitoring thread, a caller of \<open>getAllMIGDevices\<close>), each with its own
  \<open>newDevices\<close>, while another thread changes the hardware through the driver. A run
  of such a system is a sequence of events: a thread enters \<open>refreshMIGDevices\<close>, the
  pass with a given number makes its next step, or the hardware changes.
\<close>

datatype 'hw refreshEvent = StartPass | StepPass nat | HardwareChange 'hw

fun refreshEventStep ::
  "'hw nvml \<Rightarrow> indeterminate \<Rightarrow> refreshPass list \<times> 'hw MIGManager \<Rightarrow> 'hw refreshEvent \<Rightarrow>
   refreshPass list \<times> 'hw MIGManager" where
  "refreshEventStep drv u (ps, s) StartPass = (ps @ [beginRefresh u s], s)"
| "refreshEventStep drv u (ps, s) (StepPass i) =
     (if i < length ps
      then (let (p', s') = refreshStep drv (ps ! i, s) in (ps[i := p'], s'))
      else (ps, s))"
| "refreshEventStep drv u (ps, s) (HardwareChange h') = (ps, s\<lparr>hw := h'\<rparr>)"

definition runRefreshEvents ::
  "'hw nvml \<Rightarrow> indeterminate \<Rightarrow> 'hw refreshEvent list \<Rightarrow> 'hw MIGManager \<Rightarrow>
   refreshPass list \<times> 'hw MIGManager" where
  "runRefreshEvents drv u evs s = foldl (refreshEventStep drv u) ([], s) evs"

subsection \<open>Producers and the worker, interleaved\<close>






text \<open>The callbacks and the commands waiting in a queue, front first.\<close>

definition queuedCallbacks :: "AsyncTask list \<Rightarrow> nat list" where
  "queuedCallbacks q = concat (map (\<lambda>t. case callback t of None \<Rightarrow> [] | Some c \<Rightarrow> [c]) q)"

definition queuedTasks :: "AsyncTask list \<Rightarrow> task list" where
  "queuedTasks q = concat (map (\<lambda>t. case task t of None \<Rightarrow> [] | Some f \<Rightarrow> [f]) q)"

text \<open>
  The driver call inside a queued command, for stating what the worker reports: the
  device index the closure captured, the mode it passes to \<open>nvmlDeviceSetMigMode\<close>,
  the context string of the exception it throws, and the return code of the call in a
  given state.
\<close>

fun taskDevice :: "task \<Rightarrow> nat" where
  "taskDevice (EnableTask deviceIndex) = deviceIndex"
| "taskDevice (DisableTask deviceIndex) = deviceIndex"

fun taskMode :: "'hw nvml \<Rightarrow> task \<Rightarrow> nat" where
  "taskMode drv (EnableTask deviceIndex) = NVML_ENABLE_MIG drv"
| "taskMode drv (DisableTask deviceIndex) = NVML_DISABLE_MIG drv"



text \<open>
  The entry that the driver call of a command leaves in the log of driver calls, and the
  entries of \<open>nvmlDeviceSetMigMode\<close> in such a log.
\<close>

definition taskCall :: "'hw nvml \<Rightarrow> nvmlDevice_t list \<Rightarrow> task \<Rightarrow> nvmlCall" where
  "taskCall drv devs f = CallDeviceSetMigMode (devs ! taskDevice f) (taskMode drv f)"

fun isSetMigMode :: "nvmlCall \<Rightarrow> bool" where
  "isSetMigMode (CallDeviceSetMigMode device mode) = True"
| "isSetMigMode c = False"

definition setMigModeCalls :: "nvmlCall list \<Rightarrow> nvmlCall list" where
  "setMigModeCalls cs = filter isSetMigMode cs"

text \<open>
  The state after the driver call of a command: the hardware as the call leaves it, and
  the call in the log.
\<close>

definition afterDriverCall :: "'hw nvml \<Rightarrow> task \<Rightarrow> 'hw MIGManager \<Rightarrow> 'hw MIGManager" where
  "afterDriverCall drv f s =
     s\<lparr>hw := snd (nvmlDeviceSetMigMode drv (hw s) (devices s ! taskDevice f) (taskMode drv f)),
       nvmlCalls := nvmlCalls s @ [taskCall drv (devices s) f]\<rparr>"



section \<open>A machine to run the manager on\<close>

text \<open>
  A driver for two boards, with handles 100 and 101. The hardware state gives the MIG
  mode of each handle. Every board has one GPU instance with one compute instance; the
  MIG device of board 101 has the UUID \<open>P1\<close> and 5120 MB of memory.
\<close>

definition demoDriver :: "(nat \<Rightarrow> nat) nvml" where
  "demoDriver =
     \<lparr>NVML_ENABLE_MIG = 1,
      NVML_DISABLE_MIG = 0,
      nvmlErrorString = (\<lambda>r. ''Unknown Error''),
      nvmlInit = (\<lambda>h. (0, h)),
      nvmlDeviceGetCount = (\<lambda>h. Success 2),
      nvmlDeviceGetHandleByIndex = (\<lambda>h i. Success (100 + i)),
      nvmlDeviceGetMigMode = (\<lambda>h d. Success (h d, h d)),
      nvmlDeviceSetMigMode = (\<lambda>h d m. (0, h(d := m))),
      nvmlDeviceGetGpuInstances = (\<lambda>h d. Success [d + 100]),
      nvmlGpuInstanceGetInfo = (\<lambda>h g. Success \<lparr>gi_id = 1, gi_profileId = 0\<rparr>),
      nvmlGpuInstanceGetComputeInstances = (\<lambda>h g. Success [g + 100]),
      nvmlComputeInstanceGetInfo = (\<lambda>h c. Success \<lparr>ci_id = 0\<rparr>),
      nvmlComputeInstanceGetDeviceHandle = (\<lambda>h d g c ci. Success (ci + 100)),
      nvmlDeviceGetUUID = (\<lambda>h d. Success (if d = 401 then ''P1'' else ''P0'')),
      nvmlDeviceGetMemoryInfo =
        (\<lambda>h d. Success \<lparr>mem_total = 5368709120, mem_free = 4294967296, mem_used = 1073741824\<rparr>),
      nvmlDeviceGetGpuInstanceProfileInfo =
        (\<lambda>h d p. Success \<lparr>pi_memorySizeMB = 5120, pi_multiprocessorCount = 14,
                            pi_maxComputeInstances = 1\<rparr>),
      nvmlDeviceGetName = (\<lambda>h d. Success ''A100''),
      nvmlDeviceGetUtilizationRates = (\<lambda>h d. Success \<lparr>util_gpu = 50, util_memory = 20\<rparr>),
      nvmlDeviceGetPowerUsage = (\<lambda>h d. Success 250000),
      nvmlDeviceGetTemperature = (\<lambda>h d t. Success 60),
      nvmlDeviceGetComputeRunningProcesses = (\<lambda>h d. Success []),
      nvmlSystemGetProcessName = (\<lambda>h p. Failure 6)\<rparr>"

text \<open>Board 100 with MIG disabled, board 101 with MIG enabled.\<close>

definition demoHardware :: "nat \<Rightarrow> nat" where
  "demoHardware d = (if d = 101 then 1 else 0)"

text \<open>Both boards with MIG enabled.\<close>

definition demoHardwareBoth :: "nat \<Rightarrow> nat" where
  "demoHardwareBoth d = 1"

text \<open>What the storage of an uninitialised local variable holds: sevens.\<close>

definition demoJunk :: indeterminate where
  "demoJunk =
     \<lparr>junkInfo = \<lparr>deviceHandle = 7, parentDeviceIndex = 7, instanceId = 7, profileId = 7,
                  uuid = [], memorySize = 7, multiprocessorCount = 7, maxComputeInstances = 7,
                  currentComputeInstances = 7, computeInstanceIds = []\<rparr>,
      junkMetrics = \<lparr>timestamp = 7, gpuUtilization = 7, memoryUtilization = 7, memoryUsed = 7,
                     memoryFree = 7, memoryTotal = 7, powerUsage = 7, temperature = 7,
                     processUtilization = []\<rparr>\<rparr>"

text \<open>A manager over the two boards with a running worker, an empty registry and empty logs.\<close>

definition demoManager :: "(nat \<Rightarrow> nat) MIGManager" where
  "demoManager =
     \<lparr>hw = demoHardware, clock = 0, devices = [100, 101], migDevices = [],
      monitoringActive = False, latestMetrics = [], taskQueue = [], workerActive = True,
      nvmlCalls = [], callbackLog = [], waitLog = [], cerr = []\<rparr>"


text \<open>The MIG device of board 101 as a refresh on \<open>demoHardware\<close> registers it.\<close>

definition demoPartition :: MIGDeviceInfo where
  "demoPartition =
     \<lparr>deviceHandle = 401, parentDeviceIndex = 1, instanceId = 1, profileId = 0,
      uuid = ''P1'', memorySize = 5368709120, multiprocessorCount = 14,
      maxComputeInstances = 1, currentComputeInstances = 1, computeInstanceIds = [0]\<rparr>"

definition demoRegistered :: "(nat \<Rightarrow> nat) MIGManager" where
  "demoRegistered = demoManager\<lparr>migDevices := [(''P1'', demoPartition)]\<rparr>"

definition demoSnapshot :: MIGMetrics where
  "demoSnapshot =
     \<lparr>timestamp = 0, gpuUtilization = 50, memoryUtilization = 20, memoryUsed = 1073741824,
      memoryFree = 4294967296, memoryTotal = 5368709120, powerUsage = 250000,
      temperature = 60, processUtilization = []\<rparr>"

definition demoCached :: "(nat \<Rightarrow> nat) MIGManager" where
  "demoCached = demoRegistered\<lparr>latestMetrics := [(''P1'', demoSnapshot)]\<rparr>"

text \<open>
  Callbacks that all return, and callbacks of which number 1 throws a \<open>std::exception\<close>
  with the text \<open>boom\<close> when it is called with \<open>success = true\<close>.
\<close>

definition demoCallbacks :: callbacks where
  "demoCallbacks c success message = Returns"



text \<open>
  Two passes, interleaved: the first starts and visits board 100, MIG is enabled on both
  boards, the second starts and runs to its publication, then the first goes on and
  publishes.
\<close>

definition demoPasses :: "(nat \<Rightarrow> nat) refreshEvent list" where
  "demoPasses = [StartPass, StepPass 0, HardwareChange demoHardwareBoth, StartPass,
                 StepPass 1, StepPass 1, StepPass 1, StepPass 0, StepPass 0]"

text \<open>Three commands with callbacks 1, 2 and 3 in the queue, none executed yet.\<close>

definition demoQueued :: "(nat \<Rightarrow> nat) MIGManager" where
  "demoQueued =
     demoManager\<lparr>taskQueue := [\<lparr>task = Some (EnableTask 0), callback = Some 1\<rparr>,
                               \<lparr>task = Some (DisableTask 1), callback = Some 2\<rparr>,
                               \<lparr>task = Some (EnableTask 1), callback = Some 3\<rparr>]\<rparr>"

text \<open>A manager before \<open>initializeDevices\<close>, as the constructor has it.\<close>

definition demoBlank :: "(nat \<Rightarrow> nat) MIGManager" where
  "demoBlank = demoManager\<lparr>devices := [], workerActive := False\<rparr>"

text \<open>
  Variants of the driver: one on which the utilisation query is not supported (return
  code 3), one whose device count query fails, one that reports no board, one on which
  no handle can be obtained, one on which the handle of index 1 cannot be obtained, one
  on which listing the GPU instances of board 101 fails, and one on which board 101 has
  two GPU instances and the information query fails for the second.
\<close>

definition demoDriverNoUtilization :: "(nat \<Rightarrow> nat) nvml" where
  "demoDriverNoUtilization = demoDriver\<lparr>nvmlDeviceGetUtilizationRates := (\<lambda>h d. Failure 3)\<rparr>"

definition demoDriverNoCount :: "(nat \<Rightarrow> nat) nvml" where
  "demoDriverNoCount = demoDriver\<lparr>nvmlDeviceGetCount := (\<lambda>h. Failure 999)\<rparr>"

definition demoDriverNoBoards :: "(nat \<Rightarrow> nat) nvml" where
  "demoDriverNoBoards = demoDriver\<lparr>nvmlDeviceGetCount := (\<lambda>h. Success 0)\<rparr>"

definition demoDriverNoHandles :: "(nat \<Rightarrow> nat) nvml" where
  "demoDriverNoHandles = demoDriver\<lparr>nvmlDeviceGetHandleByIndex := (\<lambda>h i. Failure 999)\<rparr>"

definition demoDriverOneHandle :: "(nat \<Rightarrow> nat) nvml" where
  "demoDriverOneHandle =
     demoDriver\<lparr>nvmlDeviceGetHandleByIndex := (\<lambda>h i. if i = 1 then Failure 999 else Success (100 + i))\<rparr>"

definition demoDriverNoListing :: "(nat \<Rightarrow> nat) nvml" where
  "demoDriverNoListing =
     demoDriver\<lparr>nvmlDeviceGetGpuInstances := (\<lambda>h d. if d = 101 then Failure 999 else Success [d + 100])\<rparr>"

text \<open>
  A driver on which every board has two GPU instances, numbered by their handles, and
  the device handle of the compute instance of the second one cannot be obtained.
\<close>

definition demoDriverNoSecondHandle :: "(nat \<Rightarrow> nat) nvml" where
  "demoDriverNoSecondHandle =
     demoDriver\<lparr>nvmlDeviceGetGpuInstances := (\<lambda>h d. Success [d + 100, d + 150]),
                nvmlGpuInstanceGetInfo := (\<lambda>h g. Success \<lparr>gi_id = g, gi_profileId = 0\<rparr>),
                nvmlComputeInstanceGetDeviceHandle :=
                  (\<lambda>h d g c ci. if ci = 351 then Failure 999 else Success (ci + 100))\<rparr>"

definition demoDriverBrokenInstance :: "(nat \<Rightarrow> nat) nvml" where
  "demoDriverBrokenInstance =
     demoDriver\<lparr>nvmlDeviceGetGpuInstances := (\<lambda>h d. Success [d + 100, d + 150]),
                nvmlGpuInstanceGetInfo :=
                  (\<lambda>h g. if g = 251 then Failure 999 else Success \<lparr>gi_id = 1, gi_profileId = 0\<rparr>)\<rparr>"

definition demoManagerBoth :: "(nat \<Rightarrow> nat) MIGManager" where
  "demoManagerBoth = demoManager\<lparr>hw := demoHardwareBoth\<rparr>"


section \<open>Basic facts\<close>

text \<open>The definitions to unfold when the manager is run on the demonstration machine.\<close>

lemmas demo_defs = demoDriver_def demoHardware_def demoJunk_def demoManager_def
  demoPartition_def

lemmas refresh_defs = refreshMIGDevices_def refreshDevice_def isMIGModeEnabled_def
  gpuInstanceBody_def firstComputeInstance_def

lemma refreshMIGDevices_taskQueue [simp]:
  "taskQueue (refreshMIGDevices drv u s) = taskQueue s"
  by (simp add: refreshMIGDevices_def split_def Let_def)

lemma invoke_taskQueue [simp]: "taskQueue (invoke cb b m s) = taskQueue s"
  by (simp add: invoke_def split: option.splits)

lemma runTask_taskQueue [simp]: "taskQueue (snd (runTask drv u t s)) = taskQueue s"
  by (cases t) (simp_all add: split_def Let_def)

lemma invokeOutcome_fields [simp]:
  "taskQueue (snd (invokeOutcome cbs cb b m s)) = taskQueue s"
  "hw (snd (invokeOutcome cbs cb b m s)) = hw s"
  "devices (snd (invokeOutcome cbs cb b m s)) = devices s"
  "nvmlCalls (snd (invokeOutcome cbs cb b m s)) = nvmlCalls s"
  "workerActive (snd (invokeOutcome cbs cb b m s)) = workerActive s"
  "migDevices (snd (invokeOutcome cbs cb b m s)) = migDevices s"
  by (simp_all add: invokeOutcome_def invoke_def split: option.splits)

lemma map_find_map_assign:
  "map_find k (map_assign k' v m) = (if k = k' then Some v else map_find k m)"
  by (induction m) auto

lemma set_map_assign: "set (map_assign k v m) \<subseteq> insert (k, v) (set m)"
  by (induction m) (auto split: if_splits)

lemma invoke_fields [simp]:
  "hw (invoke cb b m s) = hw s"
  "devices (invoke cb b m s) = devices s"
  "nvmlCalls (invoke cb b m s) = nvmlCalls s"
  "workerActive (invoke cb b m s) = workerActive s"
  "migDevices (invoke cb b m s) = migDevices s"
  by (simp_all add: invoke_def split: option.splits)


lemma refreshMIGDevices_fields [simp]:
  "hw (refreshMIGDevices drv u s) = hw s"
  "devices (refreshMIGDevices drv u s) = devices s"
  "workerActive (refreshMIGDevices drv u s) = workerActive s"
  "callbackLog (refreshMIGDevices drv u s) = callbackLog s"
  "latestMetrics (refreshMIGDevices drv u s) = latestMetrics s"
  "waitLog (refreshMIGDevices drv u s) = waitLog s"
  "monitoringActive (refreshMIGDevices drv u s) = monitoringActive s"
  by (simp_all add: refreshMIGDevices_def split_def Let_def)

section \<open>Device indices out of range\<close>



section \<open>Metrics of one MIG device\<close>

text \<open>
  C7. \<open>getMIGDeviceMetrics(uuid)\<close> returns the snapshot cached in \<open>latestMetrics\<close> if
  there is one, and then leaves the state as it is. Otherwise, if the UUID is in the
  registry \<open>migDevices\<close>, it returns what \<open>collectDeviceMetrics\<close> gives for the registered
  descriptor, and the driver calls of that collection are the only change of the state.
  If the UUID is in neither map it returns the empty optional and leaves the state as it
  is, so no driver call is made.
\<close>

theorem getMIGDeviceMetrics_cases:
  "(map_find k (latestMetrics s) = Some m \<longrightarrow>
      getMIGDeviceMetrics drv u k s = (Some m, s))
   \<and> (map_find k (latestMetrics s) = None \<and> map_find k (migDevices s) = Some device \<longrightarrow>
      getMIGDeviceMetrics drv u k s =
        (Some (fst (collectDeviceMetrics drv u (hw s) (clock s) (devices s) device)),
         s\<lparr>nvmlCalls := nvmlCalls s @
              snd (collectDeviceMetrics drv u (hw s) (clock s) (devices s) device)\<rparr>))
   \<and> (map_find k (latestMetrics s) = None \<and> map_find k (migDevices s) = None \<longrightarrow>
      getMIGDeviceMetrics drv u k s = (None, s))"
  by (simp add: getMIGDeviceMetrics_def split_def Let_def)


theorem getMIGDeviceMetrics_cases_witness:
  "map_find ''P1'' (latestMetrics demoCached) = Some demoSnapshot
   \<and> getMIGDeviceMetrics demoDriver demoJunk ''P1'' demoCached = (Some demoSnapshot, demoCached)
   \<and> map_find ''P1'' (latestMetrics demoRegistered) = None
   \<and> map_find ''P1'' (migDevices demoRegistered) = Some demoPartition
   \<and> fst (getMIGDeviceMetrics demoDriver demoJunk ''P1'' demoRegistered) = Some demoSnapshot
   \<and> nvmlCalls (snd (getMIGDeviceMetrics demoDriver demoJunk ''P1'' demoRegistered)) =
       [CallDeviceGetUtilizationRates, CallDeviceGetMemoryInfo, CallDeviceGetPowerUsage,
        CallDeviceGetTemperature, CallDeviceGetComputeRunningProcesses]
   \<and> map_find ''unknown-uuid'' (latestMetrics demoRegistered) = None
   \<and> map_find ''unknown-uuid'' (migDevices demoRegistered) = None
   \<and> getMIGDeviceMetrics demoDriver demoJunk ''unknown-uuid'' demoRegistered = (None, demoRegistered)"
proof -
  have a: "map_find ''P1'' (latestMetrics demoCached) = Some demoSnapshot"
    by (simp add: demoCached_def)
  have b: "map_find ''P1'' (latestMetrics demoRegistered) = None"
          "map_find ''P1'' (migDevices demoRegistered) = Some demoPartition"
    by (simp_all add: demoRegistered_def demoManager_def)
  have c: "map_find ''unknown-uuid'' (latestMetrics demoRegistered) = None"
          "map_find ''unknown-uuid'' (migDevices demoRegistered) = None"
    by (simp_all add: demoRegistered_def demoManager_def)
  have d: "fst (collectDeviceMetrics demoDriver demoJunk (hw demoRegistered) (clock demoRegistered)
                 (devices demoRegistered) demoPartition) = demoSnapshot"
    by (simp add: collectDeviceMetrics_def demo_defs demoRegistered_def demoSnapshot_def
          NVML_TEMPERATURE_GPU_def)
  have e: "nvmlCalls demoRegistered @
           snd (collectDeviceMetrics demoDriver demoJunk (hw demoRegistered) (clock demoRegistered)
                 (devices demoRegistered) demoPartition) =
           [CallDeviceGetUtilizationRates, CallDeviceGetMemoryInfo, CallDeviceGetPowerUsage,
            CallDeviceGetTemperature, CallDeviceGetComputeRunningProcesses]"
    by (simp add: collectDeviceMetrics_def demo_defs demoRegistered_def NVML_TEMPERATURE_GPU_def)
  show ?thesis
    using a b c d e
      getMIGDeviceMetrics_cases [of "''P1''" demoCached demoSnapshot demoDriver demoJunk demoPartition]
      getMIGDeviceMetrics_cases [of "''P1''" demoRegistered demoSnapshot demoDriver demoJunk demoPartition]
      getMIGDeviceMetrics_cases [of "''unknown-uuid''" demoRegistered demoSnapshot demoDriver demoJunk demoPartition]
    by simp
qed

section \<open>The registry of the demonstration machine\<close>

text \<open>
  Two boards, MIG disabled on the first and enabled on the second, which has one MIG
  device: the refresh registers exactly that device, with parent index 1.
\<close>

lemma demo_refresh_registry:
  "migDevices (refreshMIGDevices demoDriver demoJunk demoManager) = [(''P1'', demoPartition)]"
  by (simp add: refresh_defs demo_defs)

section \<open>Shutdown\<close>

lemma workerLoop_exit: "\<not> workerActive s \<Longrightarrow> workerLoop cbs drv u s = (s, WorkerExited)"
  by (subst workerLoop.simps) (simp add: workerIteration_def)


lemma workerLoop_step:
  "workerActive s \<Longrightarrow> taskQueue s = t # q \<Longrightarrow>
   executeTask cbs drv u t (s\<lparr>taskQueue := q\<rparr>) = (False, s') \<Longrightarrow>
   workerLoop cbs drv u s = workerLoop cbs drv u s'"
  by (subst workerLoop.simps) (simp add: workerIteration_def)

lemma destroy_result:
  "destroyMIGManager cbs drv u s = ((stopMonitoring s)\<lparr>workerActive := False\<rparr>, WorkerExited)"
  by (simp add: destroyMIGManager_def workerLoop_exit)

lemma stopMonitoring_fields [simp]:
  "taskQueue (stopMonitoring s) = taskQueue s"
  "callbackLog (stopMonitoring s) = callbackLog s"
  "nvmlCalls (stopMonitoring s) = nvmlCalls s"
  "waitLog (stopMonitoring s) = waitLog s"
  "hw (stopMonitoring s) = hw s"
  "monitoringActive (stopMonitoring s) = False"
  by (simp_all add: stopMonitoring_def)

text \<open>
  C3, as the code has it. The destructor clears \<open>workerActive\<close>; the worker leaves its
  loop at the test of the flag and is joined. The commands still in the queue are
  neither executed nor notified: the queue is as it was, no callback has been invoked
  and no driver call has been made.
\<close>

theorem shutdown_discards_queue:
  "snd (destroyMIGManager cbs drv u s) = WorkerExited
   \<and> workerActive (fst (destroyMIGManager cbs drv u s)) = False
   \<and> monitoringActive (fst (destroyMIGManager cbs drv u s)) = False
   \<and> taskQueue (fst (destroyMIGManager cbs drv u s)) = taskQueue s
   \<and> callbackLog (fst (destroyMIGManager cbs drv u s)) = callbackLog s
   \<and> nvmlCalls (fst (destroyMIGManager cbs drv u s)) = nvmlCalls s"
  by (simp add: destroy_result)

text \<open>
  C3 as stated fails. With three commands queued and none executing, the destructor ends
  with an empty log of callbacks: none of the callbacks 1, 2 and 3 has been invoked,
  with any arguments.
\<close>

theorem shutdown_cancel_counterexample:
  "queuedCallbacks (taskQueue demoQueued) = [1, 2, 3]
   \<and> callbackLog (fst (destroyMIGManager demoCallbacks demoDriver demoJunk demoQueued)) = []"
  by (simp add: destroy_result queuedCallbacks_def demoQueued_def demoManager_def)

section \<open>The interval of the monitoring loop\<close>

lemma monitoringPass_waitLog: "waitLog (monitoringPass drv u s) = waitLog s @ [1000]"
  by (simp add: monitoringPass_def split_def Let_def)

lemma monitoringPass_monitoringActive [simp]:
  "monitoringActive (monitoringPass drv u s) = monitoringActive s"
  by (simp add: monitoringPass_def split_def Let_def)

lemma monitoringLoop_waitLog:
  "monitoringActive s \<Longrightarrow> waitLog (monitoringLoop drv u n s) = waitLog s @ replicate n 1000"
proof (induction n arbitrary: s)
  case 0
  then show ?case by simp
next
  case (Suc n)
  have "waitLog (monitoringLoop drv u n (monitoringPass drv u s)) =
        waitLog (monitoringPass drv u s) @ replicate n 1000"
    using Suc.prems by (intro Suc.IH) simp
  then show ?case
    using Suc.prems by (simp add: monitoringPass_waitLog replicate_app_Cons_same)
qed

lemma startMonitoring_active: "monitoringActive (startMonitoring intervalMs s)"
  by (simp add: startMonitoring_def)

lemma startMonitoring_waitLog: "waitLog (startMonitoring intervalMs s) = waitLog s"
  by (simp add: startMonitoring_def)

lemma refreshMIGDevices_clock: "clock (refreshMIGDevices drv u s) = clock s"
  by (simp add: refreshMIGDevices_def split_def Let_def)

text \<open>
  C9, at \<open>startMonitoring(500)\<close> and for every other argument: the argument is not
  stored, and every turn of the monitoring loop waits with a timeout of 1000 ms. A turn
  does refresh the registry and then rebuilds the cache of metrics from every device of
  the refreshed registry.
\<close>

theorem monitoring_interval_ignored:
  "waitLog (monitoringLoop drv u n (startMonitoring intervalMs s)) = waitLog s @ replicate n 1000
   \<and> waitLog (monitoringLoop demoDriver demoJunk 2 (startMonitoring 500 demoManager)) = [1000, 1000]
   \<and> migDevices (monitoringPass drv u s) = migDevices (refreshMIGDevices drv u s)
   \<and> latestMetrics (monitoringPass drv u s) =
       fst (collectAll drv u (hw s) (clock s) (devices s)
              (migDevices (refreshMIGDevices drv u s)) [])"
proof -
  have p: "migDevices (monitoringPass drv u s) = migDevices (refreshMIGDevices drv u s)"
          "latestMetrics (monitoringPass drv u s) =
             fst (collectAll drv u (hw s) (clock s) (devices s)
                    (migDevices (refreshMIGDevices drv u s)) [])"
    by (simp_all add: monitoringPass_def split_def Let_def refreshMIGDevices_clock)
  have c: "waitLog demoManager = []" by (simp add: demoManager_def)
  have d: "replicate 2 (1000::nat) = [1000, 1000]" by (simp add: numeral_2_eq_2)
  show ?thesis
    using monitoringLoop_waitLog [OF startMonitoring_active, of drv u n intervalMs s]
          monitoringLoop_waitLog [OF startMonitoring_active, of demoDriver demoJunk 2 500 demoManager]
          c d p
    by (simp add: startMonitoring_waitLog)
qed

section \<open>Sub-queries that fail during a collection\<close>

text \<open>
  C5, at a driver on which the utilisation query of the MIG device is not supported:
  the collection returns a snapshot, and its two utilisation fields are what the
  storage of \<open>metrics\<close> held before, here 7, not zero.
\<close>

theorem collect_failed_field_not_zero:
  "nvmlDeviceGetUtilizationRates demoDriverNoUtilization demoHardware (deviceHandle demoPartition)
     = Failure 3
   \<and> gpuUtilization (fst (collectDeviceMetrics demoDriverNoUtilization demoJunk demoHardware 0
                             [100, 101] demoPartition)) = 7
   \<and> memoryUtilization (fst (collectDeviceMetrics demoDriverNoUtilization demoJunk demoHardware 0
                             [100, 101] demoPartition)) = 7
   \<and> memoryTotal (fst (collectDeviceMetrics demoDriverNoUtilization demoJunk demoHardware 0
                             [100, 101] demoPartition)) = 5368709120"
  by (simp add: collectDeviceMetrics_def demo_defs demoDriverNoUtilization_def NVML_TEMPERATURE_GPU_def)

section \<open>Read operations and the driver\<close>

lemma refreshLoop_calls_nonempty:
  "deviceIndex < length devs \<Longrightarrow>
   \<exists>cs. snd (snd (refreshLoop drv sl h devs (deviceIndex # rest) nd)) =
          CallDeviceGetMigMode # cs"
  by (simp add: refreshDevice_def isMIGModeEnabled_def split_def Let_def
           split: nvmlResult.splits)

lemma refresh_calls_driver:
  assumes "devices s \<noteq> []"
  shows "\<exists>cs. nvmlCalls (refreshMIGDevices drv u s) = nvmlCalls s @ CallDeviceGetMigMode # cs"
proof -
  have "[0..<length (devices s)] = 0 # [1..<length (devices s)]"
    using assms by (simp add: upt_rec)
  moreover have "0 < length (devices s)" using assms by simp
  ultimately obtain cs where
    "snd (snd (refreshLoop drv (junkInfo u) (hw s) (devices s) [0..<length (devices s)] [])) =
       CallDeviceGetMigMode # cs"
    using refreshLoop_calls_nonempty [of 0 "devices s" drv "junkInfo u" "hw s"
        "[1..<length (devices s)]" "[]"]
    by auto
  then show ?thesis
    by (simp add: refreshMIGDevices_def split_def Let_def)
qed

text \<open>
  C4 as stated fails. \<open>getAllMIGDevices\<close> on the demonstration machine: the log of driver calls is empty
  before the read and holds the ten calls of a refresh after it.
\<close>

theorem read_calls_driver_counterexample:
  "nvmlCalls demoManager = []
   \<and> nvmlCalls (snd (getAllMIGDevices demoDriver demoJunk demoManager)) =
       [CallDeviceGetMigMode, CallDeviceGetMigMode, CallDeviceGetGpuInstances,
        CallGpuInstanceGetInfo, CallGpuInstanceGetComputeInstances, CallComputeInstanceGetInfo,
        CallComputeInstanceGetDeviceHandle, CallDeviceGetUUID, CallDeviceGetMemoryInfo,
        CallDeviceGetGpuInstanceProfileInfo]"
  by (simp add: getAllMIGDevices_def refresh_defs demo_defs)

text \<open>
  C4, as the code has it. \<open>findMIGDeviceByUUID\<close> and \<open>getDeviceCount\<close> read the cached
  state and leave it as it is; so does \<open>getMIGDeviceMetrics\<close> for a UUID with a cached
  snapshot, and \<open>getAllMIGMetrics\<close> when the cache of metrics is not empty.
  \<open>getAllMIGDevices\<close>, and \<open>getMIGDevices\<close> for an index in range, first run
  \<open>refreshMIGDevices\<close>, which calls the driver as soon as there is a device;
  \<open>getDeviceName\<close> for an index in range asks the driver for the name.
\<close>

theorem read_operations_and_driver:
  "findMIGDeviceByUUID k s = (map_find k (migDevices s), s)
   \<and> getDeviceCount s = (length (devices s), s)
   \<and> (map_find k (latestMetrics s) = Some m \<longrightarrow> getMIGDeviceMetrics drv u k s = (Some m, s))
   \<and> (latestMetrics s \<noteq> [] \<longrightarrow> getAllMIGMetrics drv u s = (latestMetrics s, s))
   \<and> getAllMIGDevices drv u s =
       (map snd (migDevices (refreshMIGDevices drv u s)), refreshMIGDevices drv u s)
   \<and> (deviceIndex < length (devices s) \<longrightarrow>
        getMIGDevices drv u deviceIndex s =
          (filter (\<lambda>device. parentDeviceIndex device = deviceIndex)
             (map snd (migDevices (refreshMIGDevices drv u s))),
           refreshMIGDevices drv u s))
   \<and> (devices s \<noteq> [] \<longrightarrow>
        (\<exists>cs. nvmlCalls (refreshMIGDevices drv u s) = nvmlCalls s @ CallDeviceGetMigMode # cs))
   \<and> (deviceIndex < length (devices s) \<longrightarrow>
        nvmlCalls (snd (getDeviceName drv deviceIndex s)) = nvmlCalls s @ [CallDeviceGetName])"
proof -
  have 1: "findMIGDeviceByUUID k s = (map_find k (migDevices s), s)"
    by (simp add: findMIGDeviceByUUID_def)
  have 2: "getDeviceCount s = (length (devices s), s)"
    by (simp add: getDeviceCount_def)
  have 3: "map_find k (latestMetrics s) = Some m \<longrightarrow> getMIGDeviceMetrics drv u k s = (Some m, s)"
    by (simp add: getMIGDeviceMetrics_def)
  have 4: "latestMetrics s \<noteq> [] \<longrightarrow> getAllMIGMetrics drv u s = (latestMetrics s, s)"
    by (simp add: getAllMIGMetrics_def)
  have 5: "getAllMIGDevices drv u s =
       (map snd (migDevices (refreshMIGDevices drv u s)), refreshMIGDevices drv u s)"
    by (simp add: getAllMIGDevices_def Let_def)
  have 6: "deviceIndex < length (devices s) \<longrightarrow>
        getMIGDevices drv u deviceIndex s =
          (filter (\<lambda>device. parentDeviceIndex device = deviceIndex)
             (map snd (migDevices (refreshMIGDevices drv u s))),
           refreshMIGDevices drv u s)"
    by (simp add: getMIGDevices_def Let_def)
  have 7: "devices s \<noteq> [] \<longrightarrow>
        (\<exists>cs. nvmlCalls (refreshMIGDevices drv u s) = nvmlCalls s @ CallDeviceGetMigMode # cs)"
    using refresh_calls_driver by blast
  have 8: "deviceIndex < length (devices s) \<longrightarrow>
        nvmlCalls (snd (getDeviceName drv deviceIndex s)) = nvmlCalls s @ [CallDeviceGetName]"
    by (simp add: getDeviceName_def split: nvmlResult.splits)
  show ?thesis
    using 1 2 3 4 5 6 7 8 by blast
qed

theorem read_operations_and_driver_witness:
  "map_find ''P1'' (latestMetrics demoCached) = Some demoSnapshot
   \<and> getMIGDeviceMetrics demoDriver demoJunk ''P1'' demoCached = (Some demoSnapshot, demoCached)
   \<and> latestMetrics demoCached \<noteq> []
   \<and> getAllMIGMetrics demoDriver demoJunk demoCached = (latestMetrics demoCached, demoCached)
   \<and> 1 < length (devices demoCached)
   \<and> snd (getMIGDevices demoDriver demoJunk 1 demoCached) =
       refreshMIGDevices demoDriver demoJunk demoCached
   \<and> devices demoCached \<noteq> []
   \<and> (\<exists>cs. nvmlCalls (refreshMIGDevices demoDriver demoJunk demoCached) =
             nvmlCalls demoCached @ CallDeviceGetMigMode # cs)
   \<and> nvmlCalls (snd (getDeviceName demoDriver 1 demoCached)) =
       nvmlCalls demoCached @ [CallDeviceGetName]"
proof -
  have a: "map_find ''P1'' (latestMetrics demoCached) = Some demoSnapshot"
    by (simp add: demoCached_def)
  have b: "latestMetrics demoCached \<noteq> []"
    by (simp add: demoCached_def)
  have c: "1 < length (devices demoCached)" "devices demoCached \<noteq> []"
    by (simp_all add: demoCached_def demoRegistered_def demoManager_def)
  show ?thesis
    using a b c
      read_operations_and_driver [of "''P1''" demoCached demoSnapshot demoDriver demoJunk 1]
    by simp
qed

section \<open>Initialisation of the device inventory\<close>

lemma handleLoop_devices:
  "fst (handleLoop drv h is devs) =
     devs @ concat (map (\<lambda>i. case nvmlDeviceGetHandleByIndex drv h i of
                                 Success device \<Rightarrow> [device] | Failure e \<Rightarrow> []) is)"
  by (induction "is" arbitrary: devs) (auto simp: split_def Let_def split: nvmlResult.splits)

lemma handleLoop_warnings:
  "snd (snd (handleLoop drv h is devs)) =
     concat (map (\<lambda>i. case nvmlDeviceGetHandleByIndex drv h i of
                          Success device \<Rightarrow> []
                        | Failure e \<Rightarrow> [warningPrefix @ to_string i @ warningSuffix]) is)"
  by (induction "is" arbitrary: devs) (auto simp: split_def Let_def split: nvmlResult.splits)

lemma refreshMIGDevices_cerr [simp]: "cerr (refreshMIGDevices drv u s) = cerr s"
  by (simp add: refreshMIGDevices_def split_def Let_def)

lemma initializeDevices_failure:
  "nvmlDeviceGetCount drv (hw s) = Failure result \<Longrightarrow>
   initializeDevices drv u s = Inl (newNVMLException drv result countFailedContext)"
  by (simp add: initializeDevices_def)

lemma initializeDevices_success:
  assumes "nvmlDeviceGetCount drv (hw s) = Success deviceCount"
  shows "\<exists>s'. initializeDevices drv u s = Inr s'
      \<and> devices s' = concat (map (\<lambda>i. case nvmlDeviceGetHandleByIndex drv (hw s) i of
                                          Success device \<Rightarrow> [device] | Failure e \<Rightarrow> [])
                              [0..<deviceCount])
      \<and> cerr s' = cerr s @
          concat (map (\<lambda>i. case nvmlDeviceGetHandleByIndex drv (hw s) i of
                               Success device \<Rightarrow> []
                             | Failure e \<Rightarrow> [warningPrefix @ to_string i @ warningSuffix])
                   [0..<deviceCount])"
  using assms handleLoop_devices [of drv "hw s" "[0..<deviceCount]" "[]"]
    handleLoop_warnings [of drv "hw s" "[0..<deviceCount]" "[]"]
  by (simp add: initializeDevices_def split_def Let_def)

text \<open>
  C8 as stated fails. On a driver that reports no board, and on one that reports two
  boards but gives no handle, \<open>initializeDevices\<close> returns normally with an empty inventory, and so does the
  constructor.
\<close>

theorem initialize_zero_handles_counterexample:
  "map_sum what devices (initializeDevices demoDriverNoBoards demoJunk demoBlank) = Inr []
   \<and> map_sum what devices (initializeDevices demoDriverNoHandles demoJunk demoBlank) = Inr []
   \<and> map_sum what devices (newMIGManager demoDriverNoBoards demoJunk demoHardware 0) = Inr []"
  by (simp add: initializeDevices_def newMIGManager_def refresh_defs demo_defs demoDriverNoBoards_def demoDriverNoHandles_def demoBlank_def NVML_SUCCESS_def
      numeral_2_eq_2)

text \<open>
  C8, as the code has it. \<open>initializeDevices\<close> throws exactly when the device count
  query fails. When the query succeeds it returns normally, whatever the number of
  handles obtained: the inventory holds the handles of the indices whose handle query
  succeeded, in index order, and every other index has left one warning on
  \<open>std::cerr\<close>.
\<close>

theorem initializeDevices_outcome:
  "(nvmlDeviceGetCount drv (hw s) = Failure result \<longrightarrow>
      initializeDevices drv u s = Inl (newNVMLException drv result countFailedContext))
   \<and> (nvmlDeviceGetCount drv (hw s) = Success deviceCount \<longrightarrow>
      (\<exists>s'. initializeDevices drv u s = Inr s'
         \<and> devices s' = concat (map (\<lambda>i. case nvmlDeviceGetHandleByIndex drv (hw s) i of
                                             Success device \<Rightarrow> [device] | Failure e \<Rightarrow> [])
                                 [0..<deviceCount])
         \<and> cerr s' = cerr s @
             concat (map (\<lambda>i. case nvmlDeviceGetHandleByIndex drv (hw s) i of
                                  Success device \<Rightarrow> []
                                | Failure e \<Rightarrow> [warningPrefix @ to_string i @ warningSuffix])
                      [0..<deviceCount])))"
  using initializeDevices_failure initializeDevices_success by blast

theorem initializeDevices_outcome_witness:
  "nvmlDeviceGetCount demoDriverNoCount (hw demoBlank) = Failure 999
   \<and> initializeDevices demoDriverNoCount demoJunk demoBlank =
       Inl (newNVMLException demoDriverNoCount 999 countFailedContext)
   \<and> nvmlDeviceGetCount demoDriverOneHandle (hw demoBlank) = Success 2
   \<and> (\<exists>s'. initializeDevices demoDriverOneHandle demoJunk demoBlank = Inr s'
          \<and> devices s' = [100]
          \<and> cerr s' = [warningPrefix @ to_string 1 @ warningSuffix])"
proof -
  have a: "nvmlDeviceGetCount demoDriverNoCount (hw demoBlank) = Failure 999"
    by (simp add: demo_defs demoDriverNoCount_def demoBlank_def)
  have b: "nvmlDeviceGetCount demoDriverOneHandle (hw demoBlank) = Success 2"
    by (simp add: demo_defs demoDriverOneHandle_def demoBlank_def)
  have c: "concat (map (\<lambda>i. case nvmlDeviceGetHandleByIndex demoDriverOneHandle (hw demoBlank) i of
                               Success device \<Rightarrow> [device] | Failure e \<Rightarrow> []) [0..<2]) = [100]"
    by (simp add: demo_defs demoDriverOneHandle_def demoBlank_def numeral_2_eq_2)
  have d: "cerr demoBlank @
           concat (map (\<lambda>i. case nvmlDeviceGetHandleByIndex demoDriverOneHandle (hw demoBlank) i of
                               Success device \<Rightarrow> []
                             | Failure e \<Rightarrow> [warningPrefix @ to_string i @ warningSuffix]) [0..<2])
           = [warningPrefix @ to_string 1 @ warningSuffix]"
    by (simp add: demo_defs demoDriverOneHandle_def demoBlank_def numeral_2_eq_2)
  show ?thesis
    using a b c d
      initializeDevices_outcome [of demoDriverNoCount demoBlank 999 demoJunk 2]
      initializeDevices_outcome [of demoDriverOneHandle demoBlank 999 demoJunk 2]
    by simp
qed


section \<open>Driver failures during a refresh\<close>

lemma firstComputeInstance_parent:
  "parentDeviceIndex (fst (firstComputeInstance drv h dev instanceInfo ci ciInfo m)) =
     parentDeviceIndex m"
  by (simp add: firstComputeInstance_def Let_def split: nvmlResult.splits)

lemma computeInstanceLoop_parent:
  "parentDeviceIndex (fst (computeInstanceLoop drv h dev instanceInfo j cis m)) =
     parentDeviceIndex m"
proof (induction cis arbitrary: j m)
  case Nil
  then show ?case by simp
next
  case (Cons ci cis)
  show ?case
  proof (cases "nvmlComputeInstanceGetInfo drv h ci")
    case (Failure e)
    then show ?thesis using Cons.IH by (simp add: split_def Let_def)
  next
    case (Success ciInfo)
    then show ?thesis
      using Cons.IH by (simp add: split_def Let_def firstComputeInstance_parent)
  qed
qed

lemma gpuInstanceBody_parent:
  assumes "(k, info) \<in> set (fst (gpuInstanceBody drv sl h devs deviceIndex g nd))"
  shows "(k, info) \<in> set nd \<or> parentDeviceIndex info = deviceIndex"
proof (cases "nvmlGpuInstanceGetInfo drv h g")
  case (Failure e)
  with assms show ?thesis by (simp add: gpuInstanceBody_def)
next
  case info: (Success instanceInfo)
  show ?thesis
  proof (cases "nvmlGpuInstanceGetComputeInstances drv h g")
    case (Failure e)
    with assms info show ?thesis by (simp add: gpuInstanceBody_def)
  next
    case (Success computeInstances)
    with assms info set_map_assign show ?thesis
      by (fastforce simp: gpuInstanceBody_def split_def Let_def computeInstanceLoop_parent
            split: if_splits)
  qed
qed

lemma gpuInstanceLoop_parent:
  "(k, info) \<in> set (fst (gpuInstanceLoop drv sl h devs deviceIndex gs nd)) \<Longrightarrow>
   (k, info) \<in> set nd \<or> parentDeviceIndex info = deviceIndex"
proof (induction gs arbitrary: nd sl)
  case Nil
  then show ?case by simp
next
  case (Cons g gs)
  from Cons.prems have
    "(k, info) \<in> set (fst (gpuInstanceLoop drv
                             (fst (snd (gpuInstanceBody drv sl h devs deviceIndex g nd)))
                             h devs deviceIndex gs
                             (fst (gpuInstanceBody drv sl h devs deviceIndex g nd))))"
    by (simp add: split_def Let_def)
  from Cons.IH [OF this] show ?case
    by (auto dest: gpuInstanceBody_parent)
qed

lemma refreshDevice_parent:
  assumes "(k, info) \<in> set (fst (refreshDevice drv sl h devs deviceIndex nd))"
  shows "(k, info) \<in> set nd \<or> parentDeviceIndex info = deviceIndex"
proof (cases "fst (isMIGModeEnabled drv h devs deviceIndex)")
  case False
  with assms show ?thesis by (simp add: refreshDevice_def split_def Let_def)
next
  case True
  show ?thesis
  proof (cases "nvmlDeviceGetGpuInstances drv h (devs ! deviceIndex)")
    case (Failure e)
    with assms True show ?thesis by (simp add: refreshDevice_def split_def Let_def)
  next
    case (Success gs)
    with assms True gpuInstanceLoop_parent show ?thesis
      by (fastforce simp: refreshDevice_def split_def Let_def)
  qed
qed

lemma refreshLoop_parent:
  "(k, info) \<in> set (fst (refreshLoop drv sl h devs is nd)) \<Longrightarrow>
   (k, info) \<in> set nd \<or> parentDeviceIndex info \<in> set is"
proof (induction "is" arbitrary: nd sl)
  case Nil
  then show ?case by simp
next
  case (Cons i "is")
  from Cons.prems have
    "(k, info) \<in> set (fst (refreshLoop drv (fst (snd (refreshDevice drv sl h devs i nd)))
                             h devs is (fst (refreshDevice drv sl h devs i nd))))"
    by (simp add: split_def Let_def)
  from Cons.IH [OF this] show ?case
    by (auto dest: refreshDevice_parent)
qed

text \<open>
  A device whose mode query or whose listing call fails adds nothing and declares no
  \<open>migInfo\<close>: mapping and storage are as before.
\<close>

lemma refreshDevice_skip:
  assumes "(\<exists>e. nvmlDeviceGetMigMode drv h (devs ! d) = Failure e)
         \<or> (\<exists>e. nvmlDeviceGetGpuInstances drv h (devs ! d) = Failure e)"
  shows "fst (refreshDevice drv sl h devs d nd) = nd
       \<and> fst (snd (refreshDevice drv sl h devs d nd)) = sl"
  using assms
  by (auto simp: refreshDevice_def isMIGModeEnabled_def split_def Let_def
           split: nvmlResult.splits)

lemma refreshLoop_skip:
  assumes "\<And>nd sl. fst (refreshDevice drv sl h devs d nd) = nd
                  \<and> fst (snd (refreshDevice drv sl h devs d nd)) = sl"
  shows "fst (refreshLoop drv sl h devs is nd) =
         fst (refreshLoop drv sl h devs (filter (\<lambda>i. i \<noteq> d) is) nd)"
proof (induction "is" arbitrary: nd sl)
  case Nil
  then show ?case by simp
next
  case (Cons i "is")
  show ?case
  proof (cases "i = d")
    case True
    then show ?thesis using Cons.IH assms by (simp add: split_def Let_def)
  next
    case False
    then show ?thesis using Cons.IH by (simp add: split_def Let_def)
  qed
qed

text \<open>
  What an iteration over a GPU instance registers, and what it leaves in the stale
  members of the storage, depends on the storage it finds through the stale members
  only.
\<close>

lemma stale_overwritten:
  assumes "staleFields a = staleFields b"
  shows "a\<lparr>uuid := x, parentDeviceIndex := p, instanceId := i, profileId := q,
           computeInstanceIds := y, currentComputeInstances := c\<rparr> =
         b\<lparr>uuid := x, parentDeviceIndex := p, instanceId := i, profileId := q,
           computeInstanceIds := y, currentComputeInstances := c\<rparr>"
  using assms by (cases a, cases b) (simp add: staleFields_def)

lemma gpuInstanceBody_stale:
  assumes "staleFields sl = staleFields sl'"
  shows "fst (gpuInstanceBody drv sl h devs deviceIndex g nd) =
         fst (gpuInstanceBody drv sl' h devs deviceIndex g nd)
       \<and> staleFields (fst (snd (gpuInstanceBody drv sl h devs deviceIndex g nd))) =
         staleFields (fst (snd (gpuInstanceBody drv sl' h devs deviceIndex g nd)))"
proof (cases "nvmlGpuInstanceGetInfo drv h g")
  case (Failure e)
  with assms show ?thesis by (simp add: gpuInstanceBody_def staleFields_def Let_def)
next
  case info: (Success instanceInfo)
  show ?thesis
  proof (cases "nvmlGpuInstanceGetComputeInstances drv h g")
    case (Failure e)
    with assms info show ?thesis by (simp add: gpuInstanceBody_def staleFields_def Let_def)
  next
    case (Success computeInstances)
    with info show ?thesis
      by (simp add: gpuInstanceBody_def Let_def split_def stale_overwritten [OF assms])
  qed
qed

lemma gpuInstanceLoop_stale:
  "staleFields sl = staleFields sl' \<Longrightarrow>
   fst (gpuInstanceLoop drv sl h devs deviceIndex gs nd) =
   fst (gpuInstanceLoop drv sl' h devs deviceIndex gs nd)
   \<and> staleFields (fst (snd (gpuInstanceLoop drv sl h devs deviceIndex gs nd))) =
     staleFields (fst (snd (gpuInstanceLoop drv sl' h devs deviceIndex gs nd)))"
proof (induction gs arbitrary: sl sl' nd)
  case Nil
  then show ?case by simp
next
  case (Cons g gs)
  note body = gpuInstanceBody_stale [OF Cons.prems, of drv h devs deviceIndex g nd]
  from body have st: "staleFields (fst (snd (gpuInstanceBody drv sl h devs deviceIndex g nd))) =
         staleFields (fst (snd (gpuInstanceBody drv sl' h devs deviceIndex g nd)))"
    by simp
  from body have nd: "fst (gpuInstanceBody drv sl h devs deviceIndex g nd) =
         fst (gpuInstanceBody drv sl' h devs deviceIndex g nd)"
    by simp
  show ?case
    using Cons.IH [OF st, of "fst (gpuInstanceBody drv sl' h devs deviceIndex g nd)"] nd
    by (simp add: split_def Let_def)
qed

text \<open>
  A GPU instance one of whose two queries fails adds nothing and leaves the stale
  members of the storage as they were; the loop goes on.
\<close>

lemma gpuInstanceBody_skip:
  assumes "(\<exists>e. nvmlGpuInstanceGetInfo drv h g = Failure e)
         \<or> (\<exists>e. nvmlGpuInstanceGetComputeInstances drv h g = Failure e)"
  shows "fst (gpuInstanceBody drv sl h devs deviceIndex g nd) = nd
       \<and> staleFields (fst (snd (gpuInstanceBody drv sl h devs deviceIndex g nd))) = staleFields sl"
  using assms
  by (auto simp: gpuInstanceBody_def staleFields_def Let_def split: nvmlResult.splits)

lemma gpuInstanceLoop_skip:
  assumes "\<And>nd sl. fst (gpuInstanceBody drv sl h devs deviceIndex g nd) = nd
            \<and> staleFields (fst (snd (gpuInstanceBody drv sl h devs deviceIndex g nd))) =
                staleFields sl"
  shows "fst (gpuInstanceLoop drv sl h devs deviceIndex (gs1 @ g # gs2) nd) =
         fst (gpuInstanceLoop drv sl h devs deviceIndex (gs1 @ gs2) nd)
       \<and> staleFields (fst (snd (gpuInstanceLoop drv sl h devs deviceIndex (gs1 @ g # gs2) nd))) =
         staleFields (fst (snd (gpuInstanceLoop drv sl h devs deviceIndex (gs1 @ gs2) nd)))"
proof (induction gs1 arbitrary: nd sl)
  case Nil
  show ?case
    using assms [of sl nd]
      gpuInstanceLoop_stale [of "fst (snd (gpuInstanceBody drv sl h devs deviceIndex g nd))" sl
        drv h devs deviceIndex gs2 nd]
    by (simp add: split_def Let_def)
next
  case (Cons a gs1)
  then show ?case by (simp add: split_def Let_def)
qed

text \<open>
  The storage of \<open>migInfo\<close> at work: on a driver where the device handle of the second
  GPU instance of a board cannot be obtained, the second iteration reads the UUID of the
  handle that the first one left in the storage, and its descriptor replaces the first
  one under that UUID.
\<close>

lemma demo_stale_handle:
  "map (\<lambda>(k, info). (k, deviceHandle info, instanceId info))
     (migDevices (refreshMIGDevices demoDriverNoSecondHandle demoJunk demoManager)) =
   [(''P1'', 401, 251)]"
  by (simp add: refresh_defs demo_defs demoDriverNoSecondHandle_def)

text \<open>
  C6 as stated fails. On a driver where board 101 has two GPU instances and the
  information query fails for the second one, the refresh still registers the MIG device
  of the first: board 101 contributes one partition, not zero.
\<close>

theorem refresh_partial_device_counterexample:
  "nvmlGpuInstanceGetInfo demoDriverBrokenInstance (hw demoManager) 251 = Failure 999
   \<and> map parentDeviceIndex
        (map snd (migDevices (refreshMIGDevices demoDriverBrokenInstance demoJunk demoManager))) = [1]"
  by (simp add: refresh_defs demo_defs demoDriverBrokenInstance_def)

text \<open>
  C6, as the code has it. If the MIG mode query or the call that lists the GPU instances
  fails for the device at index \<open>d\<close>, the new mapping holds no descriptor with parent
  index \<open>d\<close>, and it is the mapping that the loop builds from the other indices: the
  refresh goes on with the remaining devices. If a query on one GPU instance fails
  (\<open>nvmlGpuInstanceGetInfo\<close> or \<open>nvmlGpuInstanceGetComputeInstances\<close>), the loop over
  the instances of the device, from whatever storage and mapping it starts, gives the
  mapping it gives without that instance, and leaves the same stale members for the
  iterations that follow: only this instance is left out.
\<close>

theorem refresh_isolates_failures:
  "((\<exists>e. nvmlDeviceGetMigMode drv (hw s) (devices s ! d) = Failure e)
     \<or> (\<exists>e. nvmlDeviceGetGpuInstances drv (hw s) (devices s ! d) = Failure e) \<longrightarrow>
      (\<forall>(k, info) \<in> set (migDevices (refreshMIGDevices drv u s)). parentDeviceIndex info \<noteq> d)
      \<and> migDevices (refreshMIGDevices drv u s) =
          fst (refreshLoop drv (junkInfo u) (hw s) (devices s)
                 (filter (\<lambda>i. i \<noteq> d) [0..<length (devices s)]) []))
   \<and> ((\<exists>e. nvmlGpuInstanceGetInfo drv h g = Failure e)
     \<or> (\<exists>e. nvmlGpuInstanceGetComputeInstances drv h g = Failure e) \<longrightarrow>
      fst (gpuInstanceLoop drv sl h devs deviceIndex (gs1 @ g # gs2) nd) =
      fst (gpuInstanceLoop drv sl h devs deviceIndex (gs1 @ gs2) nd)
      \<and> staleFields (fst (snd (gpuInstanceLoop drv sl h devs deviceIndex (gs1 @ g # gs2) nd))) =
        staleFields (fst (snd (gpuInstanceLoop drv sl h devs deviceIndex (gs1 @ gs2) nd))))"
proof (intro conjI impI)
  assume fail: "(\<exists>e. nvmlDeviceGetMigMode drv (hw s) (devices s ! d) = Failure e)
     \<or> (\<exists>e. nvmlDeviceGetGpuInstances drv (hw s) (devices s ! d) = Failure e)"
  have eq: "migDevices (refreshMIGDevices drv u s) =
          fst (refreshLoop drv (junkInfo u) (hw s) (devices s)
                 (filter (\<lambda>i. i \<noteq> d) [0..<length (devices s)]) [])"
    using refreshLoop_skip [of drv "hw s" "devices s" d "junkInfo u" "[0..<length (devices s)]" "[]"]
      refreshDevice_skip [OF fail]
    by (simp add: refreshMIGDevices_def split_def Let_def)
  show "migDevices (refreshMIGDevices drv u s) =
          fst (refreshLoop drv (junkInfo u) (hw s) (devices s)
                 (filter (\<lambda>i. i \<noteq> d) [0..<length (devices s)]) [])"
    by (rule eq)
  show "\<forall>(k, info) \<in> set (migDevices (refreshMIGDevices drv u s)). parentDeviceIndex info \<noteq> d"
  proof (clarify)
    fix k info
    assume mem: "(k, info) \<in> set (migDevices (refreshMIGDevices drv u s))"
      and "d = parentDeviceIndex info"
    from mem eq have "(k, info) \<in> set (fst (refreshLoop drv (junkInfo u) (hw s) (devices s)
                 (filter (\<lambda>i. i \<noteq> d) [0..<length (devices s)]) []))" by simp
    from refreshLoop_parent [OF this]
    have "parentDeviceIndex info \<noteq> d" by auto
    with \<open>d = parentDeviceIndex info\<close> show False by simp
  qed
next
  assume fail: "(\<exists>e. nvmlGpuInstanceGetInfo drv h g = Failure e)
     \<or> (\<exists>e. nvmlGpuInstanceGetComputeInstances drv h g = Failure e)"
  have both: "fst (gpuInstanceLoop drv sl h devs deviceIndex (gs1 @ g # gs2) nd) =
      fst (gpuInstanceLoop drv sl h devs deviceIndex (gs1 @ gs2) nd)
      \<and> staleFields (fst (snd (gpuInstanceLoop drv sl h devs deviceIndex (gs1 @ g # gs2) nd))) =
        staleFields (fst (snd (gpuInstanceLoop drv sl h devs deviceIndex (gs1 @ gs2) nd)))"
    by (rule gpuInstanceLoop_skip) (rule gpuInstanceBody_skip [OF fail])
  from both show "fst (gpuInstanceLoop drv sl h devs deviceIndex (gs1 @ g # gs2) nd) =
      fst (gpuInstanceLoop drv sl h devs deviceIndex (gs1 @ gs2) nd)"
    by simp
  from both show
    "staleFields (fst (snd (gpuInstanceLoop drv sl h devs deviceIndex (gs1 @ g # gs2) nd))) =
     staleFields (fst (snd (gpuInstanceLoop drv sl h devs deviceIndex (gs1 @ gs2) nd)))"
    by simp
qed

theorem refresh_isolates_failures_witness:
  "((\<exists>e. nvmlDeviceGetMigMode demoDriverNoListing (hw demoManagerBoth)
            (devices demoManagerBoth ! 1) = Failure e)
     \<or> (\<exists>e. nvmlDeviceGetGpuInstances demoDriverNoListing (hw demoManagerBoth)
            (devices demoManagerBoth ! 1) = Failure e))
   \<and> list_all (\<lambda>(k, info). parentDeviceIndex info \<noteq> 1)
        (migDevices (refreshMIGDevices demoDriverNoListing demoJunk demoManagerBoth))
   \<and> migDevices (refreshMIGDevices demoDriverNoListing demoJunk demoManagerBoth) =
       fst (refreshLoop demoDriverNoListing (junkInfo demoJunk) (hw demoManagerBoth)
              (devices demoManagerBoth)
              (filter (\<lambda>i. i \<noteq> 1) [0..<length (devices demoManagerBoth)]) [])
   \<and> map fst (migDevices (refreshMIGDevices demoDriverNoListing demoJunk demoManagerBoth)) = [''P0'']
   \<and> ((\<exists>e. nvmlGpuInstanceGetInfo demoDriverBrokenInstance demoHardware 251 = Failure e)
     \<or> (\<exists>e. nvmlGpuInstanceGetComputeInstances demoDriverBrokenInstance demoHardware 251 = Failure e))
   \<and> fst (gpuInstanceLoop demoDriverBrokenInstance (junkInfo demoJunk) demoHardware [100, 101] 1
            ([201] @ 251 # []) []) =
       fst (gpuInstanceLoop demoDriverBrokenInstance (junkInfo demoJunk) demoHardware [100, 101] 1
            ([201] @ []) [])"
proof -
  have a: "(\<exists>e. nvmlDeviceGetMigMode demoDriverNoListing (hw demoManagerBoth)
            (devices demoManagerBoth ! 1) = Failure e)
     \<or> (\<exists>e. nvmlDeviceGetGpuInstances demoDriverNoListing (hw demoManagerBoth)
            (devices demoManagerBoth ! 1) = Failure e)"
    by (simp add: demo_defs demoDriverNoListing_def demoManagerBoth_def demoHardwareBoth_def)
  have b: "(\<exists>e. nvmlGpuInstanceGetInfo demoDriverBrokenInstance demoHardware 251 = Failure e)
     \<or> (\<exists>e. nvmlGpuInstanceGetComputeInstances demoDriverBrokenInstance demoHardware 251 = Failure e)"
    by (simp add: demo_defs demoDriverBrokenInstance_def)
  have c: "map fst (fst (refreshLoop demoDriverNoListing (junkInfo demoJunk) (hw demoManagerBoth)
              (devices demoManagerBoth)
              (filter (\<lambda>i. i \<noteq> 1) [0..<length (devices demoManagerBoth)]) [])) = [''P0'']"
    by (simp add: refresh_defs demo_defs demoDriverNoListing_def demoManagerBoth_def
          demoHardwareBoth_def)
  show ?thesis
    using a b c
      refresh_isolates_failures [where drv = demoDriverNoListing and s = demoManagerBoth
         and d = 1 and u = demoJunk]
      refresh_isolates_failures [where drv = demoDriverBrokenInstance
         and h = demoHardware and g = 251 and devs = "[100, 101]" and deviceIndex = 1
         and sl = "junkInfo demoJunk"
         and ?gs1.0 = "[201]" and ?gs2.0 = "[]" and nd = "[]"]
    by (simp add: list_all_iff)
qed


section \<open>Publication of a refresh pass\<close>

lemma refreshMIGDevices_eq:
  "refreshMIGDevices drv u s =
     s\<lparr>migDevices :=
         fst (refreshLoop drv (junkInfo u) (hw s) (devices s) [0..<length (devices s)] []),
       nvmlCalls := nvmlCalls s @
         snd (snd (refreshLoop drv (junkInfo u) (hw s) (devices s) [0..<length (devices s)] []))\<rparr>"
  by (simp add: refreshMIGDevices_def split_def Let_def)

text \<open>
  After \<open>k\<close> steps of a pass that started in state \<open>s\<close>: as long as the pass has not
  published, the outer loop is at index \<open>k\<close>, the state differs from \<open>s\<close> in the log
  of driver calls only, and finishing the loop from here gives the mapping and the calls
  of the whole loop; once it has published, the state is that of \<open>refreshMIGDevices\<close>.
\<close>

lemma refresh_steps_invariant:
  fixes drv :: "'hw nvml" and u :: indeterminate and k :: nat and s :: "'hw MIGManager"
  defines "n \<equiv> length (devices s)"
  defines "whole \<equiv> refreshLoop drv (junkInfo u) (hw s) (devices s) [0..<length (devices s)] []"
  defines "ps \<equiv> (refreshStep drv ^^ k) (beginRefresh u s, s)"
  shows "if published (fst ps)
         then n < k \<and> remaining (fst ps) = [] \<and> snd ps = refreshMIGDevices drv u s
         else k \<le> n \<and> remaining (fst ps) = [k..<n]
              \<and> (\<exists>cs. snd ps = s\<lparr>nvmlCalls := nvmlCalls s @ cs\<rparr>
                    \<and> cs @ snd (snd (refreshLoop drv (slot (fst ps)) (hw s) (devices s) [k..<n]
                                        (newDevices (fst ps))))
                        = snd (snd whole))
              \<and> fst (refreshLoop drv (slot (fst ps)) (hw s) (devices s) [k..<n]
                        (newDevices (fst ps)))
                  = fst whole"
  unfolding ps_def
proof (induction k)
  case 0
  show ?case by (simp add: beginRefresh_def n_def whole_def)
next
  case (Suc k)
  define p where "p = fst ((refreshStep drv ^^ k) (beginRefresh u s, s))"
  define t where "t = snd ((refreshStep drv ^^ k) (beginRefresh u s, s))"
  have step: "(refreshStep drv ^^ Suc k) (beginRefresh u s, s) = refreshStep drv (p, t)"
    by (simp add: p_def t_def)
  show ?case
  proof (cases "published p")
    case True
    with Suc.IH have "n < k" "remaining p = []" "t = refreshMIGDevices drv u s"
      by (simp_all add: p_def t_def)
    with True show ?thesis
      unfolding step by (simp add: refreshStep_def)
  next
    case False
    with Suc.IH obtain cs where
      kn: "k \<le> n" and rem: "remaining p = [k..<n]"
      and t: "t = s\<lparr>nvmlCalls := nvmlCalls s @ cs\<rparr>"
      and calls: "cs @ snd (snd (refreshLoop drv (slot p) (hw s) (devices s) [k..<n] (newDevices p)))
                  = snd (snd whole)"
      and maps: "fst (refreshLoop drv (slot p) (hw s) (devices s) [k..<n] (newDevices p)) = fst whole"
      by (auto simp: p_def t_def)
    show ?thesis
    proof (cases "k < n")
      case True
      then have upt: "[k..<n] = k # [Suc k..<n]" by (simp add: upt_conv_Cons)
      have "\<not> published (fst (refreshStep drv (p, t)))"
        using False rem upt by (simp add: refreshStep_def split_def Let_def)
      moreover have "remaining (fst (refreshStep drv (p, t))) = [Suc k..<n]"
        using rem upt by (simp add: refreshStep_def split_def Let_def)
      moreover have "snd (refreshStep drv (p, t)) =
          s\<lparr>nvmlCalls := nvmlCalls s @
             (cs @ snd (snd (refreshDevice drv (slot p) (hw s) (devices s) k (newDevices p))))\<rparr>"
        using rem upt t by (simp add: refreshStep_def split_def Let_def)
      moreover have "newDevices (fst (refreshStep drv (p, t))) =
          fst (refreshDevice drv (slot p) (hw s) (devices s) k (newDevices p))"
        using rem upt t by (simp add: refreshStep_def split_def Let_def)
      moreover have "slot (fst (refreshStep drv (p, t))) =
          fst (snd (refreshDevice drv (slot p) (hw s) (devices s) k (newDevices p)))"
        using rem upt t by (simp add: refreshStep_def split_def Let_def)
      moreover have
        "(cs @ snd (snd (refreshDevice drv (slot p) (hw s) (devices s) k (newDevices p)))) @
            snd (snd (refreshLoop drv
                   (fst (snd (refreshDevice drv (slot p) (hw s) (devices s) k (newDevices p))))
                   (hw s) (devices s) [Suc k..<n]
                   (fst (refreshDevice drv (slot p) (hw s) (devices s) k (newDevices p)))))
         = snd (snd whole)"
        using calls upt by (simp add: split_def Let_def)
      moreover have "fst (refreshLoop drv
                   (fst (snd (refreshDevice drv (slot p) (hw s) (devices s) k (newDevices p))))
                   (hw s) (devices s) [Suc k..<n]
                   (fst (refreshDevice drv (slot p) (hw s) (devices s) k (newDevices p)))) = fst whole"
        using maps upt by (simp add: split_def Let_def)
      ultimately show ?thesis
        unfolding step using True by (simp del: append_assoc) blast
    next
      case knot: False
      with kn have "k = n" by simp
      then have nil: "remaining p = []" using rem by simp
      from calls maps \<open>k = n\<close> have "snd (snd whole) = cs" "fst whole = newDevices p"
        by simp_all
      then have "snd (refreshStep drv (p, t)) = refreshMIGDevices drv u s"
        using False nil t by (simp add: refreshStep_def refreshMIGDevices_eq whole_def)
      moreover have "published (fst (refreshStep drv (p, t)))"
        using False nil by (simp add: refreshStep_def)
      moreover have "remaining (fst (refreshStep drv (p, t))) = []"
        using False nil by (simp add: refreshStep_def)
      ultimately show ?thesis
        unfolding step using \<open>k = n\<close> by simp
    qed
  qed
qed

lemma refresh_steps_published:
  "migDevices (snd ((refreshStep drv ^^ k) (beginRefresh u s, s))) = migDevices s
   \<or> migDevices (snd ((refreshStep drv ^^ k) (beginRefresh u s, s))) =
      migDevices (refreshMIGDevices drv u s)"
proof (cases "published (fst ((refreshStep drv ^^ k) (beginRefresh u s, s)))")
  case True
  with refresh_steps_invariant [where drv = drv and u = u and k = k and s = s] show ?thesis by simp
next
  case False
  with refresh_steps_invariant [where drv = drv and u = u and k = k and s = s] obtain cs where
    "snd ((refreshStep drv ^^ k) (beginRefresh u s, s)) = s\<lparr>nvmlCalls := nvmlCalls s @ cs\<rparr>"
    by auto
  then show ?thesis by simp
qed

lemma refresh_steps_complete:
  "snd ((refreshStep drv ^^ Suc (length (devices s))) (beginRefresh u s, s)) =
     refreshMIGDevices drv u s"
proof (cases "published (fst ((refreshStep drv ^^ Suc (length (devices s))) (beginRefresh u s, s)))")
  case True
  with refresh_steps_invariant [where drv = drv and u = u and k = "Suc (length (devices s))" and s = s] show ?thesis by simp
next
  case False
  with refresh_steps_invariant [where drv = drv and u = u and k = "Suc (length (devices s))" and s = s] show ?thesis by simp
qed

text \<open>
  With several passes and a changing hardware: every pass that has published has
  finished its loop, and the registry is the one from before the run or the complete
  local mapping of one pass that has published.
\<close>

lemma refreshStep_cases:
  "refreshStep drv (p, s) =
     (case remaining p of
        deviceIndex # rest \<Rightarrow>
          (p\<lparr>remaining := rest,
             newDevices := fst (refreshDevice drv (slot p) (hw s) (devices s) deviceIndex
                                 (newDevices p)),
             slot := fst (snd (refreshDevice drv (slot p) (hw s) (devices s) deviceIndex
                                 (newDevices p)))\<rparr>,
           s\<lparr>nvmlCalls := nvmlCalls s @
                snd (snd (refreshDevice drv (slot p) (hw s) (devices s) deviceIndex
                            (newDevices p)))\<rparr>)
      | [] \<Rightarrow> (if published p then (p, s)
               else (p\<lparr>published := True\<rparr>, s\<lparr>migDevices := newDevices p\<rparr>)))"
  by (simp add: refreshStep_def split_def Let_def split: list.splits)

lemma refreshEventStep_invariant:
  assumes fin: "\<forall>p \<in> set ps. published p \<longrightarrow> remaining p = []"
    and fresh: "migDevices s = old
              \<or> (\<exists>p \<in> set ps. published p \<and> remaining p = [] \<and> migDevices s = newDevices p)"
  shows "(\<forall>p \<in> set (fst (refreshEventStep drv u (ps, s) ev)). published p \<longrightarrow> remaining p = [])
       \<and> (migDevices (snd (refreshEventStep drv u (ps, s) ev)) = old
          \<or> (\<exists>p \<in> set (fst (refreshEventStep drv u (ps, s) ev)).
                published p \<and> remaining p = []
                \<and> migDevices (snd (refreshEventStep drv u (ps, s) ev)) = newDevices p))"
proof (cases ev)
  case StartPass
  with fin fresh show ?thesis by (auto simp: beginRefresh_def)
next
  case (HardwareChange h')
  with fin fresh show ?thesis by auto
next
  case (StepPass i)
  show ?thesis
  proof (cases "i < length ps")
    case False
    with StepPass fin fresh show ?thesis by auto
  next
    case True
    define p where "p = ps ! i"
    have pin: "p \<in> set ps" using True by (simp add: p_def)
    show ?thesis
    proof (cases "remaining p")
      case (Cons d rest)
      then have np: "\<not> published p" using fin pin by auto
      define p' where "p' = p\<lparr>remaining := rest,
          newDevices := fst (refreshDevice drv (slot p) (hw s) (devices s) d (newDevices p)),
          slot := fst (snd (refreshDevice drv (slot p) (hw s) (devices s) d (newDevices p)))\<rparr>"
      have st: "refreshEventStep drv u (ps, s) ev =
            (ps[i := p'],
             s\<lparr>nvmlCalls := nvmlCalls s @
                  snd (snd (refreshDevice drv (slot p) (hw s) (devices s) d (newDevices p)))\<rparr>)"
        using StepPass True Cons by (simp add: refreshStep_cases p_def p'_def)
      have np': "\<not> published p'" using np by (simp add: p'_def)
      have sub: "set (ps[i := p']) \<subseteq> insert p' (set ps)" by (rule set_update_subset_insert)
      have keep: "q \<in> set (ps[i := p'])" if "q \<in> set ps" "published q" for q
      proof -
        from that obtain j where j: "j < length ps" "ps ! j = q" by (auto simp: in_set_conv_nth)
        with that np have "j \<noteq> i" by (auto simp: p_def)
        with j have "ps[i := p'] ! j = q" by simp
        with j show ?thesis by (metis length_list_update nth_mem)
      qed
      have 1: "\<forall>q \<in> set (ps[i := p']). published q \<longrightarrow> remaining q = []"
        using sub fin np' by auto
      have 2: "migDevices s = old
              \<or> (\<exists>q \<in> set (ps[i := p']). published q \<and> remaining q = [] \<and> migDevices s = newDevices q)"
        using fresh keep by blast
      show ?thesis unfolding st using 1 2 by simp
    next
      case Nil
      show ?thesis
      proof (cases "published p")
        case True
        have "ps[i := p] = ps" by (simp add: p_def)
        then have "refreshEventStep drv u (ps, s) ev = (ps, s)"
          using StepPass \<open>i < length ps\<close> Nil True by (simp add: refreshStep_cases p_def)
        with fin fresh show ?thesis by simp
      next
        case False
        define p' where "p' = p\<lparr>published := True\<rparr>"
        have st: "refreshEventStep drv u (ps, s) ev = (ps[i := p'], s\<lparr>migDevices := newDevices p\<rparr>)"
          using StepPass \<open>i < length ps\<close> Nil False by (simp add: refreshStep_cases p_def p'_def)
        have sub: "set (ps[i := p']) \<subseteq> insert p' (set ps)" by (rule set_update_subset_insert)
        have p'in: "p' \<in> set (ps[i := p'])" using \<open>i < length ps\<close> by (simp add: set_update_memI)
        have 1: "\<forall>q \<in> set (ps[i := p']). published q \<longrightarrow> remaining q = []"
          using sub fin Nil by (auto simp: p'_def)
        have 2: "\<exists>q \<in> set (ps[i := p']). published q \<and> remaining q = []
                   \<and> newDevices p = newDevices q"
          using p'in Nil by (auto simp: p'_def intro!: bexI [of _ p'])
        show ?thesis unfolding st using 1 2 by simp
      qed
    qed
  qed
qed

lemma runRefreshEvents_invariant:
  "(\<forall>p \<in> set (fst (runRefreshEvents drv u evs s)). published p \<longrightarrow> remaining p = [])
   \<and> (migDevices (snd (runRefreshEvents drv u evs s)) = migDevices s
      \<or> (\<exists>p \<in> set (fst (runRefreshEvents drv u evs s)).
            published p \<and> remaining p = []
            \<and> migDevices (snd (runRefreshEvents drv u evs s)) = newDevices p))"
proof (induction evs rule: rev_induct)
  case Nil
  show ?case by (simp add: runRefreshEvents_def)
next
  case (snoc ev evs)
  obtain ps t where r: "runRefreshEvents drv u evs s = (ps, t)"
    by (cases "runRefreshEvents drv u evs s")
  have step: "runRefreshEvents drv u (evs @ [ev]) s = refreshEventStep drv u (ps, t) ev"
    using r by (simp add: runRefreshEvents_def)
  from snoc.IH r have a: "\<forall>p \<in> set ps. published p \<longrightarrow> remaining p = []"
    and b: "migDevices t = migDevices s
          \<or> (\<exists>p \<in> set ps. published p \<and> remaining p = [] \<and> migDevices t = newDevices p)"
    by simp_all
  show ?case
    unfolding step by (rule refreshEventStep_invariant [OF a b])
qed

text \<open>
  C1. A refresh pass builds its mapping in a local variable, starting from the empty
  mapping, and publishes it in one step under \<open>metricsMutex\<close>. Whatever the number
  \<open>k\<close> of steps the pass has made when another thread reads the registry under the
  same mutex, the registry it finds is the one from before the pass or the complete one
  of the pass, and so is the answer of \<open>findMIGDeviceByUUID\<close>. The whole pass, one step
  per device and one for the publication, is \<open>refreshMIGDevices\<close>, and the mapping it
  publishes does not depend on the mapping it replaces. When several passes run
  interleaved in any way while the hardware changes, the registry is at every moment
  the one from before the run or the complete local mapping of a single pass that has
  finished its loop and published.
\<close>

theorem refresh_publishes_atomically:
  "(migDevices (snd ((refreshStep drv ^^ k) (beginRefresh u s, s))) = migDevices s
     \<or> migDevices (snd ((refreshStep drv ^^ k) (beginRefresh u s, s))) =
        migDevices (refreshMIGDevices drv u s))
   \<and> (fst (findMIGDeviceByUUID key (snd ((refreshStep drv ^^ k) (beginRefresh u s, s)))) =
        fst (findMIGDeviceByUUID key s)
     \<or> fst (findMIGDeviceByUUID key (snd ((refreshStep drv ^^ k) (beginRefresh u s, s)))) =
        fst (findMIGDeviceByUUID key (refreshMIGDevices drv u s)))
   \<and> snd ((refreshStep drv ^^ Suc (length (devices s))) (beginRefresh u s, s)) =
       refreshMIGDevices drv u s
   \<and> migDevices (refreshMIGDevices drv u (s\<lparr>migDevices := old\<rparr>)) =
       migDevices (refreshMIGDevices drv u s)
   \<and> (migDevices (snd (runRefreshEvents drv u evs s)) = migDevices s
      \<or> (\<exists>p \<in> set (fst (runRefreshEvents drv u evs s)).
            published p \<and> remaining p = []
            \<and> migDevices (snd (runRefreshEvents drv u evs s)) = newDevices p))"
proof -
  have a: "migDevices (snd ((refreshStep drv ^^ k) (beginRefresh u s, s))) = migDevices s
     \<or> migDevices (snd ((refreshStep drv ^^ k) (beginRefresh u s, s))) =
        migDevices (refreshMIGDevices drv u s)"
    by (rule refresh_steps_published)
  then have b: "fst (findMIGDeviceByUUID key (snd ((refreshStep drv ^^ k) (beginRefresh u s, s)))) =
        fst (findMIGDeviceByUUID key s)
     \<or> fst (findMIGDeviceByUUID key (snd ((refreshStep drv ^^ k) (beginRefresh u s, s)))) =
        fst (findMIGDeviceByUUID key (refreshMIGDevices drv u s))"
    by (auto simp: findMIGDeviceByUUID_def)
  have c: "migDevices (refreshMIGDevices drv u (s\<lparr>migDevices := old\<rparr>)) =
       migDevices (refreshMIGDevices drv u s)"
    by (simp add: refreshMIGDevices_eq)
  have d: "migDevices (snd (runRefreshEvents drv u evs s)) = migDevices s
      \<or> (\<exists>p \<in> set (fst (runRefreshEvents drv u evs s)).
            published p \<and> remaining p = []
            \<and> migDevices (snd (runRefreshEvents drv u evs s)) = newDevices p)"
    using runRefreshEvents_invariant [of drv u evs s] by blast
  show ?thesis
    using a b c d refresh_steps_complete by blast
qed

theorem refresh_publishes_atomically_witness:
  "(migDevices (snd (runRefreshEvents demoDriver demoJunk demoPasses demoManager)) =
      migDevices demoManager
    \<or> list_ex (\<lambda>p. published p \<and> remaining p = []
                   \<and> migDevices (snd (runRefreshEvents demoDriver demoJunk demoPasses demoManager)) =
                       newDevices p)
         (fst (runRefreshEvents demoDriver demoJunk demoPasses demoManager)))
   \<and> map fst (migDevices (snd (runRefreshEvents demoDriver demoJunk demoPasses demoManager))) =
       [''P1'']
   \<and> map (\<lambda>p. map fst (newDevices p))
        (fst (runRefreshEvents demoDriver demoJunk demoPasses demoManager)) =
       [[''P1''], [''P0'', ''P1'']]"
proof -
  have e: "map fst (migDevices (snd (runRefreshEvents demoDriver demoJunk demoPasses demoManager))) =
       [''P1'']"
    "map (\<lambda>p. map fst (newDevices p))
        (fst (runRefreshEvents demoDriver demoJunk demoPasses demoManager)) =
       [[''P1''], [''P0'', ''P1'']]"
    by (simp_all add: runRefreshEvents_def demoPasses_def refreshStep_cases beginRefresh_def
          refreshDevice_def isMIGModeEnabled_def gpuInstanceBody_def firstComputeInstance_def
          demo_defs demoHardwareBoth_def)
  show ?thesis
    using e
      refresh_publishes_atomically [where drv = demoDriver and u = demoJunk
        and evs = demoPasses and s = demoManager]
    by (simp add: list_ex_iff)
qed


section \<open>The worker and its queue\<close>

lemma runTask_fields [simp]:
  "devices (snd (runTask drv u f s)) = devices s"
  "workerActive (snd (runTask drv u f s)) = workerActive s"
  "callbackLog (snd (runTask drv u f s)) = callbackLog s"
  by (cases f; simp add: split_def Let_def)+



lemma queuedCallbacks_simps [simp]:
  "queuedCallbacks [] = []"
  "queuedCallbacks (t # q) = (case callback t of None \<Rightarrow> [] | Some c \<Rightarrow> [c]) @ queuedCallbacks q"
  "queuedCallbacks (q @ q') = queuedCallbacks q @ queuedCallbacks q'"
  by (simp_all add: queuedCallbacks_def)

lemma queuedTasks_simps [simp]:
  "queuedTasks [] = []"
  "queuedTasks (t # q) = (case task t of None \<Rightarrow> [] | Some f \<Rightarrow> [f]) @ queuedTasks q"
  "queuedTasks (q @ q') = queuedTasks q @ queuedTasks q'"
  by (simp_all add: queuedTasks_def)

lemma setMigModeCalls_simps [simp]:
  "setMigModeCalls [] = []"
  "setMigModeCalls (c # cs) = (if isSetMigMode c then [c] else []) @ setMigModeCalls cs"
  "setMigModeCalls (cs @ cs') = setMigModeCalls cs @ setMigModeCalls cs'"
  by (simp_all add: setMigModeCalls_def)

text \<open>A refresh makes no call of \<open>nvmlDeviceSetMigMode\<close>.\<close>

lemma computeInstanceLoop_queries:
  "setMigModeCalls (snd (computeInstanceLoop drv h dev instanceInfo j cis m)) = []"
proof (induction cis arbitrary: j m)
  case Nil
  then show ?case by simp
next
  case (Cons ci cis)
  then show ?case
    by (cases "nvmlComputeInstanceGetInfo drv h ci")
       (simp_all add: split_def Let_def firstComputeInstance_def)
qed

lemma gpuInstanceBody_queries:
  "setMigModeCalls (snd (snd (gpuInstanceBody drv sl h devs deviceIndex g nd))) = []"
  by (simp add: gpuInstanceBody_def split_def Let_def computeInstanceLoop_queries
           split: nvmlResult.splits)

lemma gpuInstanceLoop_queries:
  "setMigModeCalls (snd (snd (gpuInstanceLoop drv sl h devs deviceIndex gs nd))) = []"
  by (induction gs arbitrary: sl nd) (simp_all add: split_def Let_def gpuInstanceBody_queries)

lemma refreshDevice_queries:
  "setMigModeCalls (snd (snd (refreshDevice drv sl h devs deviceIndex nd))) = []"
  by (simp add: refreshDevice_def isMIGModeEnabled_def split_def Let_def gpuInstanceLoop_queries
           split: nvmlResult.splits)

lemma refreshLoop_queries:
  "setMigModeCalls (snd (snd (refreshLoop drv sl h devs is nd))) = []"
  by (induction "is" arbitrary: sl nd) (simp_all add: split_def Let_def refreshDevice_queries)

lemma refreshMIGDevices_queries [simp]:
  "setMigModeCalls (nvmlCalls (refreshMIGDevices drv u s)) = setMigModeCalls (nvmlCalls s)"
  by (simp add: refreshMIGDevices_def split_def Let_def refreshLoop_queries)

lemma afterDriverCall_fields [simp]:
  "devices (afterDriverCall drv f s) = devices s"
  "taskQueue (afterDriverCall drv f s) = taskQueue s"
  "workerActive (afterDriverCall drv f s) = workerActive s"
  "callbackLog (afterDriverCall drv f s) = callbackLog s"
  "nvmlCalls (afterDriverCall drv f s) = nvmlCalls s @ [taskCall drv (devices s) f]"
  by (simp_all add: afterDriverCall_def)









end
